theory Spec2Isabelle
  imports Complex_Main "HOL-Library.Char_ord" "HOL-Library.List_Lexorder" "HOL-Library.Multiset"
    "HOL-Library.Log_Nat"
begin

section \<open>JavaScript values\<close>

text \<open>
  Both source files compute with JavaScript numbers. A finite double is modelled by the
  rational it denotes (rounding and overflow are not modelled); the three non-finite
  values are kept, because the two append handlers guard differently against them
  (\<open>Number.isFinite\<close> in \<open>addLog\<close>, \<open>isNaN\<close> in \<open>addMiles\<close>).
\<close>

datatype jsnum = NaN | NegInf | PosInf | Fin rat

fun jadd :: "jsnum \<Rightarrow> jsnum \<Rightarrow> jsnum" where
  "jadd NaN y = NaN"
| "jadd x NaN = NaN"
| "jadd PosInf NegInf = NaN"
| "jadd NegInf PosInf = NaN"
| "jadd PosInf y = PosInf"
| "jadd x PosInf = PosInf"
| "jadd NegInf y = NegInf"
| "jadd x NegInf = NegInf"
| "jadd (Fin a) (Fin b) = Fin (a + b)"

fun jneg :: "jsnum \<Rightarrow> jsnum" where
  "jneg NaN = NaN"
| "jneg NegInf = PosInf"
| "jneg PosInf = NegInf"
| "jneg (Fin a) = Fin (- a)"

definition jsub :: "jsnum \<Rightarrow> jsnum \<Rightarrow> jsnum" where
  "jsub x y = jadd x (jneg y)"

text \<open>\<open>x < y\<close> and \<open>x <= y\<close> of JavaScript: every comparison with \<open>NaN\<close> is false.\<close>

fun jlt :: "jsnum \<Rightarrow> jsnum \<Rightarrow> bool" where
  "jlt NaN y = False"
| "jlt x NaN = False"
| "jlt x NegInf = False"
| "jlt NegInf y = True"
| "jlt PosInf y = False"
| "jlt x PosInf = True"
| "jlt (Fin a) (Fin b) = (a < b)"

fun jle :: "jsnum \<Rightarrow> jsnum \<Rightarrow> bool" where
  "jle NaN y = False"
| "jle x NaN = False"
| "jle NegInf y = True"
| "jle x PosInf = True"
| "jle PosInf y = False"
| "jle x NegInf = False"
| "jle (Fin a) (Fin b) = (a \<le> b)"

text \<open>\<open>x > y\<close> and \<open>x >= y\<close>.\<close>

definition jgt :: "jsnum \<Rightarrow> jsnum \<Rightarrow> bool" where
  "jgt x y = jlt y x"

definition jge :: "jsnum \<Rightarrow> jsnum \<Rightarrow> bool" where
  "jge x y = jle y x"

definition isNaN :: "jsnum \<Rightarrow> bool" where
  "isNaN x = (x = NaN)"

fun Number_isFinite :: "jsnum \<Rightarrow> bool" where
  "Number_isFinite (Fin a) = True"
| "Number_isFinite x = False"

text \<open>\<open>Math.max(min, Math.min(max, n))\<close> on finite numbers (\<open>clamp\<close> of backup.jsx).\<close>

definition clamp :: "rat \<Rightarrow> rat \<Rightarrow> rat \<Rightarrow> rat" where
  "clamp n lo hi = max lo (min hi n)"

text \<open>\<open>xs[i]\<close> of JavaScript: \<open>undefined\<close> (here \<open>None\<close>) out of range.\<close>

definition js_index :: "'a list \<Rightarrow> nat \<Rightarrow> 'a option" where
  "js_index xs i = (if i < length xs then Some (xs ! i) else None)"

text \<open>\<open>xs.at(-1)\<close>: the last element, \<open>undefined\<close> on the empty array.\<close>

definition js_at_last :: "'a list \<Rightarrow> 'a option" where
  "js_at_last xs = (if xs = [] then None else Some (last xs))"

section \<open>Milestone tables\<close>

record milestone =
  m_id :: string
  m_name :: string
  m_miles :: rat
  m_event :: string
  m_reward :: string

text \<open>
  \<open>MILESTONES\<close> of the odometer variant (the component \<open>MountDoomTracker\<close>).
  Characters outside ASCII are written as their UTF-8 bytes.
\<close>

definition MILESTONES :: "milestone list" where
  "MILESTONES =
    [\<lparr>m_id = ''shire'', m_name = ''The Shire (Bag End)'', m_miles = 0,
       m_event = ''The journey begins.'', m_reward = ''Pick your playlist.''\<rparr>,
     \<lparr>m_id = ''bree'', m_name = ''Bree'', m_miles = 120,
       m_event = ''You'' @ [CHR 0xE2, CHR 0x80, CHR 0x99] @ ''ve left comfort behind.'',
       m_reward = ''Treat yourself to coffee.''\<rparr>,
     \<lparr>m_id = ''rivendell'', m_name = ''Rivendell'', m_miles = 570,
       m_event = ''A place of rest.'', m_reward = ''Buy something new for walking.''\<rparr>,
     \<lparr>m_id = ''moria'', m_name = ''Moria'', m_miles = 1030,
       m_event = ''A tough stretch.'', m_reward = ''Movie night: Fellowship.''\<rparr>,
     \<lparr>m_id = ''lothlorien'', m_name = ''Lothl'' @ [CHR 0xC3, CHR 0xB3] @ ''rien'',
       m_miles = 1120, m_event = ''A calm after darkness.'',
       m_reward = ''Stretch + rest day.''\<rparr>,
     \<lparr>m_id = ''gondor'', m_name = ''Gondor'', m_miles = 1400,
       m_event = ''The final push begins.'', m_reward = ''New audiobook.''\<rparr>,
     \<lparr>m_id = ''mountdoom'', m_name = ''Mount Doom'', m_miles = 1800,
       m_event = ''The Ring is destroyed.'', m_reward = ''Celebrate big.''\<rparr>]"

text \<open>\<open>DEFAULT_MILESTONES\<close> of the planner variant (backup.jsx).\<close>

definition DEFAULT_MILESTONES :: "milestone list" where
  "DEFAULT_MILESTONES =
    [\<lparr>m_id = ''shire'', m_name = ''The Shire (Bag End)'', m_miles = 0,
       m_event = ''The journey begins.'', m_reward = ''Pick your playlist.''\<rparr>,
     \<lparr>m_id = ''bree'', m_name = ''Bree'', m_miles = 120,
       m_event = ''You'' @ [CHR 0xE2, CHR 0x80, CHR 0x99] @ ''ve left comfort behind.'',
       m_reward = ''Treat yourself to coffee.''\<rparr>,
     \<lparr>m_id = ''rivendell'', m_name = ''Rivendell'', m_miles = 570,
       m_event = ''A place of rest.'', m_reward = ''Buy something new for walking.''\<rparr>,
     \<lparr>m_id = ''moria'', m_name = ''Moria'', m_miles = 1030,
       m_event = ''A tough stretch.'', m_reward = ''Movie night: Fellowship.''\<rparr>,
     \<lparr>m_id = ''lorien'', m_name = ''Lothl'' @ [CHR 0xC3, CHR 0xB3] @ ''rien'',
       m_miles = 1135, m_event = ''Calm checkpoint.'',
       m_reward = ''Take a peaceful walk.''\<rparr>,
     \<lparr>m_id = ''rauros'', m_name = ''Rauros'', m_miles = 1540,
       m_event = ''Hard part begins.'', m_reward = ''Write a note to future you.''\<rparr>,
     \<lparr>m_id = ''blackgate'', m_name = ''Black Gate'', m_miles = 1685,
       m_event = ''Final stretch.'', m_reward = ''Favorite meal.''\<rparr>,
     \<lparr>m_id = ''cirith'', m_name = ''Cirith Ungol'', m_miles = 1740,
       m_event = ''Rough climb.'', m_reward = ''Light day and rest.''\<rparr>,
     \<lparr>m_id = ''doom'', m_name = ''Mount Doom'', m_miles = 1800,
       m_event = ''Quest complete.'', m_reward = ''Big celebration.''\<rparr>]"

text \<open>
  The table invariant of the data model: thresholds strictly increasing in table order,
  the first one 0.
\<close>

definition table_ok :: "milestone list \<Rightarrow> bool" where
  "table_ok table =
     (table \<noteq> [] \<and> m_miles (hd table) = 0 \<and> sorted_wrt (\<lambda>a b. m_miles a < m_miles b) table)"

section \<open>Milestone resolver\<close>

subsection \<open>Odometer variant: \<open>getUnlockedMilestone\<close>, \<open>getNextMilestone\<close>\<close>

text \<open>
  \<open>[...MILESTONES].reverse().find(m => miles >= m.miles) || MILESTONES[0]\<close>, with the table
  as a parameter; a milestone object is truthy, so \<open>||\<close> falls through only when \<open>find\<close>
  found nothing.
\<close>

definition getUnlockedMilestoneOn :: "milestone list \<Rightarrow> jsnum \<Rightarrow> milestone option" where
  "getUnlockedMilestoneOn table miles =
     (case List.find (\<lambda>m. jge miles (Fin (m_miles m))) (rev table) of
        Some m \<Rightarrow> Some m
      | None \<Rightarrow> js_index table 0)"

text \<open>The same on the constant table, where \<open>MILESTONES[0]\<close> exists.\<close>

definition getUnlockedMilestone :: "jsnum \<Rightarrow> milestone" where
  "getUnlockedMilestone miles =
     (case List.find (\<lambda>m. jge miles (Fin (m_miles m))) (rev MILESTONES) of
        Some m \<Rightarrow> m
      | None \<Rightarrow> MILESTONES ! 0)"

text \<open>\<open>MILESTONES.find(m => m.miles > miles) || null\<close>.\<close>

definition getNextMilestoneOn :: "milestone list \<Rightarrow> jsnum \<Rightarrow> milestone option" where
  "getNextMilestoneOn table miles = List.find (\<lambda>m. jgt (Fin (m_miles m)) miles) table"

definition getNextMilestone :: "jsnum \<Rightarrow> milestone option" where
  "getNextMilestone miles = getNextMilestoneOn MILESTONES miles"

subsection \<open>Planner variant: \<open>nextMilestone\<close>, \<open>reachedMilestones\<close>, \<open>lastReached\<close>\<close>

text \<open>
  In backup.jsx the total is a sum of finite numbers (\<open>addLog\<close> admits only finite miles),
  so it is a rational here. \<open>milestones\<close> is a local constant of the component, bound to
  \<open>DEFAULT_MILESTONES\<close>.
\<close>

definition nextMilestone :: "milestone list \<Rightarrow> rat \<Rightarrow> milestone option" where
  "nextMilestone milestones totalMiles = List.find (\<lambda>m. totalMiles < m_miles m) milestones"

definition reachedMilestones :: "milestone list \<Rightarrow> rat \<Rightarrow> milestone list" where
  "reachedMilestones milestones totalMiles = filter (\<lambda>m. totalMiles \<ge> m_miles m) milestones"

text \<open>\<open>reachedMilestones.at(-1) ?? milestones[0]\<close>.\<close>

definition lastReached :: "milestone list \<Rightarrow> rat \<Rightarrow> milestone option" where
  "lastReached milestones totalMiles =
     (case js_at_last (reachedMilestones milestones totalMiles) of
        Some m \<Rightarrow> Some m
      | None \<Rightarrow> js_index milestones 0)"

section \<open>Odometer variant (\<open>MountDoomTracker\<close>): the entry ledger\<close>

record entry =
  e_id :: string
  e_miles :: jsnum
  e_date :: string
  e_edited :: bool

text \<open>
  The state of \<open>MountDoomTracker\<close>. The notification timer (\<open>toastTimerRef\<close>) is not
  modelled; \<open>toast\<close> is \<open>None\<close> for \<open>null\<close>.
\<close>

record tracker =
  entries :: "entry list"
  inputMiles :: string
  isEditingLast :: bool
  editMiles :: string
  toast :: "string option"

text \<open>The initial values of the state variables (lines 29 to 35).\<close>

definition freshTracker :: tracker where
  "freshTracker = \<lparr>entries = [], inputMiles = [], isEditingLast = False, editMiles = [],
                    toast = None\<rparr>"

text \<open>\<open>entries.reduce((sum, e) => sum + e.miles, 0)\<close>.\<close>

definition totalMiles :: "entry list \<Rightarrow> jsnum" where
  "totalMiles es = foldl (\<lambda>acc e. jadd acc (e_miles e)) (Fin 0) es"

text \<open>\<open>entries[entries.length - 1]\<close>: \<open>undefined\<close> on the empty ledger.\<close>

definition lastEntry :: "entry list \<Rightarrow> entry option" where
  "lastEntry es = (if length es = 0 then None else js_index es (length es - 1))"

text \<open>\<open>showRewardToast\<close>; the handlers only call it with a milestone object.\<close>

definition showRewardToast :: "milestone \<Rightarrow> tracker \<Rightarrow> tracker" where
  "showRewardToast m st =
     st\<lparr>toast := Some (''Reward unlocked at '' @ m_name m @ '': '' @ m_reward m)\<rparr>"

text \<open>
  \<open>addMiles\<close>. Its three reads from the host are parameters: \<open>v\<close> is
  \<open>parseFloat(inputMiles)\<close>, \<open>uuid\<close> is what \<open>crypto.randomUUID()\<close> returned (the host is
  taken to have it) and \<open>now\<close> is \<open>new Date().toISOString()\<close>.
\<close>

definition addMiles :: "jsnum \<Rightarrow> string \<Rightarrow> string \<Rightarrow> tracker \<Rightarrow> tracker" where
  "addMiles v uuid now st =
     (if isNaN v \<or> jle v (Fin 0) then st
      else
        let prevTotal = totalMiles (entries st);
            nextTotal = jadd prevTotal v;
            prevUnlocked = getUnlockedMilestone prevTotal;
            nextUnlocked = getUnlockedMilestone nextTotal;
            st1 = st\<lparr>entries := entries st @
                        [\<lparr>e_id = uuid, e_miles = v, e_date = now, e_edited = False\<rparr>],
                      inputMiles := [],
                      isEditingLast := False\<rparr>
        in if m_id nextUnlocked \<noteq> m_id prevUnlocked then showRewardToast nextUnlocked st1
           else st1)"

text \<open>\<open>deleteLast\<close>; \<open>prev.slice(0, -1)\<close> is \<open>butlast\<close>.\<close>

definition deleteLast :: "tracker \<Rightarrow> tracker" where
  "deleteLast st =
     (if lastEntry (entries st) = None then st
      else st\<lparr>entries := butlast (entries st), isEditingLast := False, editMiles := [],
               toast := None\<rparr>)"

text \<open>
  \<open>saveEditLast\<close>; \<open>v\<close> is \<open>parseFloat(editMiles)\<close>. The guard
  \<open>isNaN(value) || value <= 0 || !lastEntry\<close> returns in each of its three cases; the
  \<open>case\<close> binds the last entry for the rest.
\<close>

definition saveEditLast :: "jsnum \<Rightarrow> tracker \<Rightarrow> tracker" where
  "saveEditLast v st =
     (case lastEntry (entries st) of
        None \<Rightarrow> st
      | Some le \<Rightarrow>
          if isNaN v \<or> jle v (Fin 0) then st
          else
            let prevTotal = totalMiles (entries st);
                nextTotal = jadd (jsub prevTotal (e_miles le)) v;
                prevUnlocked = getUnlockedMilestone prevTotal;
                nextUnlocked = getUnlockedMilestone nextTotal;
                es = entries st;
                st1 = st\<lparr>entries := es[length es - 1 :=
                                  (es ! (length es - 1))\<lparr>e_miles := v, e_edited := True\<rparr>],
                          isEditingLast := False,
                          editMiles := []\<rparr>
            in if jgt nextTotal prevTotal \<and> m_id nextUnlocked \<noteq> m_id prevUnlocked
               then showRewardToast nextUnlocked st1
               else st1)"

text \<open>A sequence of presses of Add, each with what the host returned at that press.\<close>

fun addMilesAll :: "(jsnum \<times> string \<times> string) list \<Rightarrow> tracker \<Rightarrow> tracker" where
  "addMilesAll [] st = st"
| "addMilesAll ((v, uuid, now) # rest) st = addMilesAll rest (addMiles v uuid now st)"

section \<open>Planner variant (backup.jsx): ramp plan\<close>

text \<open>
  A ramp stage. \<open>weeks\<close> is a whole number (\<open>updateStage\<close> rounds it and keeps it in
  1..52; the defaults are 4).
\<close>

record stage =
  weeks :: nat
  milesPerDay :: rat

text \<open>\<open>DEFAULT_RAMP_STAGES\<close>.\<close>

definition DEFAULT_RAMP_STAGES :: "stage list" where
  "DEFAULT_RAMP_STAGES =
     [\<lparr>weeks = 4, milesPerDay = 2\<rparr>, \<lparr>weeks = 4, milesPerDay = 5 / 2\<rparr>,
      \<lparr>weeks = 4, milesPerDay = 3\<rparr>, \<lparr>weeks = 4, milesPerDay = 7 / 2\<rparr>,
      \<lparr>weeks = 4, milesPerDay = 4\<rparr>, \<lparr>weeks = 4, milesPerDay = 9 / 2\<rparr>]"

record stageInfo =
  stageIndex :: nat
  milesPerDayOrNull :: "rat option"

text \<open>
  \<open>getStageForDayIndex\<close>: the loop over \<open>i\<close> with \<open>remaining\<close>, as a recursion over the
  stages from index \<open>i\<close> on. After the last stage the result carries
  \<open>stages.length\<close> and \<open>null\<close>.
\<close>

fun stageLoop :: "nat \<Rightarrow> nat \<Rightarrow> stage list \<Rightarrow> stageInfo" where
  "stageLoop i remaining [] = \<lparr>stageIndex = i, milesPerDayOrNull = None\<rparr>"
| "stageLoop i remaining (s # rest) =
     (if remaining < weeks s * 7
      then \<lparr>stageIndex = i, milesPerDayOrNull = Some (milesPerDay s)\<rparr>
      else stageLoop (Suc i) (remaining - weeks s * 7) rest)"

definition getStageForDayIndex :: "nat \<Rightarrow> stage list \<Rightarrow> stageInfo" where
  "getStageForDayIndex dayIndex stages = stageLoop 0 dayIndex stages"

definition isActiveDay :: "nat \<Rightarrow> rat \<Rightarrow> bool" where
  "isActiveDay dayIndex daysPerWeek = (of_nat (dayIndex mod 7) < daysPerWeek)"

text \<open>
  An ISO date argument, as far as the plan functions look at it: falsy (the empty string),
  a text for which \<open>toDate\<close> gives an invalid date, or a text whose local midnight
  \<open>toDate\<close> places at the given millisecond timestamp. The local midnights of two
  consecutive days are 86400000 ms apart, except across a change of the clock.
\<close>

datatype isodate = Empty | Invalid | Midnight int

text \<open>\<open>daysDiffInclusive\<close> on the two timestamps.\<close>

definition daysDiffInclusive :: "int \<Rightarrow> int \<Rightarrow> int" where
  "daysDiffInclusive a b = (b - a) div (1000 * 60 * 60 * 24) + 1"

text \<open>The miles one active day contributes: \<open>stageInfo.milesPerDay ?? capMiles\<close>.\<close>

definition dayMiles :: "nat \<Rightarrow> stage list \<Rightarrow> rat \<Rightarrow> rat" where
  "dayMiles i stages capMiles =
     (case milesPerDayOrNull (getStageForDayIndex i stages) of
        Some mpd \<Rightarrow> mpd
      | None \<Rightarrow> capMiles)"

text \<open>The \<open>for\<close> loop of \<open>plannedMilesThroughDate\<close>, from \<open>i\<close> with the sum so far.\<close>

function plannedLoop :: "nat \<Rightarrow> int \<Rightarrow> stage list \<Rightarrow> rat \<Rightarrow> rat \<Rightarrow> rat \<Rightarrow> rat" where
  "plannedLoop i totalDays stages capMiles daysPerWeek acc =
     (if int i < totalDays then
        (if \<not> isActiveDay i daysPerWeek
         then plannedLoop (Suc i) totalDays stages capMiles daysPerWeek acc
         else plannedLoop (Suc i) totalDays stages capMiles daysPerWeek
                (acc + dayMiles i stages capMiles))
      else acc)"
  by pat_completeness auto
termination
  by (relation "measure (\<lambda>(i, totalDays, stages, capMiles, daysPerWeek, acc).
        nat (totalDays - int i))") auto

declare plannedLoop.simps [simp del]

text \<open>
  \<open>plannedMilesThroughDate\<close>. With an invalid date the comparison is false, \<open>totalDays\<close>
  is \<open>NaN\<close>, the loop body never runs and the result is the initial 0.
\<close>

fun plannedMilesThroughDate :: "isodate \<Rightarrow> isodate \<Rightarrow> stage list \<Rightarrow> rat \<Rightarrow> rat \<Rightarrow> rat" where
  "plannedMilesThroughDate Empty targetISO stages capMiles daysPerWeek = 0"
| "plannedMilesThroughDate planStartISO Empty stages capMiles daysPerWeek = 0"
| "plannedMilesThroughDate Invalid targetISO stages capMiles daysPerWeek = 0"
| "plannedMilesThroughDate planStartISO Invalid stages capMiles daysPerWeek = 0"
| "plannedMilesThroughDate (Midnight a) (Midnight b) stages capMiles daysPerWeek =
     (if b < a then 0
      else plannedLoop 0 (daysDiffInclusive a b) stages capMiles daysPerWeek 0)"

text \<open>
  A valid plan configuration, as the data model has it: weeks in 1..52, stage rates in
  0.5..cap, a positive cap, 1 to 7 active days a week.
\<close>

definition valid_plan :: "stage list \<Rightarrow> rat \<Rightarrow> rat \<Rightarrow> bool" where
  "valid_plan stages capMiles daysPerWeek =
     (0 < capMiles \<and> 1 \<le> daysPerWeek \<and> daysPerWeek \<le> 7 \<and>
      list_all (\<lambda>s. 1 \<le> weeks s \<and> weeks s \<le> 52 \<and>
                     1 / 2 \<le> milesPerDay s \<and> milesPerDay s \<le> capMiles) stages)"

section \<open>Planner variant (backup.jsx): logs and progress\<close>

record log =
  l_id :: string
  l_date :: string
  l_miles :: rat

text \<open>
  What \<open>setToast\<close> is given. The texts that go through \<open>formatMiles\<close> (the host's locale)
  are kept as their data: \<open>Unlocked m\<close> is
  \<open>Unlocked: ${m.name}. ${m.event} Reward: ${m.reward}\<close>, \<open>LoggedToNext x\<close> is
  \<open>Logged! ${formatMiles(x)} miles to next milestone.\<close>
\<close>

datatype notice =
    Blank
  | EnterMilesGreaterThan0
  | Unlocked milestone
  | LoggedToNext rat
  | LoggedQuestComplete
  | EntryRemoved

text \<open>
  The state of \<open>App\<close>; \<open>notice\<close> is its \<open>toast\<close> variable. The selection of a milestone
  on the map (\<open>selectedMilestoneId\<close>) is not modelled.
\<close>

record planner =
  goalMiles :: rat
  goalDate :: string
  logs :: "log list"
  entryMiles :: string
  entryDate :: string
  notice :: notice
  planEnabled :: bool
  planStartDate :: string
  capMiles :: rat
  daysPerWeek :: rat
  rampStages :: "stage list"

text \<open>
  The initial values of the state variables when nothing was saved (lines 104 to 117);
  \<open>today\<close> is \<open>todayISO()\<close>.
\<close>

definition freshPlanner :: "string \<Rightarrow> planner" where
  "freshPlanner today =
     \<lparr>goalMiles = 1800, goalDate = ''2027-10-12'', logs = [], entryMiles = [],
      entryDate = today, notice = Blank, planEnabled = True, planStartDate = today,
      capMiles = 5, daysPerWeek = 7, rampStages = DEFAULT_RAMP_STAGES\<rparr>"

text \<open>
  \<open>totalMiles\<close> of \<open>App\<close>: \<open>logs.reduce((s, r) => s + Number(r.miles || 0), 0)\<close>; on a
  finite number \<open>Number(x || 0)\<close> is \<open>x\<close>.
\<close>

definition logsTotal :: "log list \<Rightarrow> rat" where
  "logsTotal ls = foldl (\<lambda>s r. s + l_miles r) 0 ls"

text \<open>
  \<open>progressPct\<close>; \<open>Number(goalMiles) || 1\<close> replaces a goal of 0 by 1 and keeps every
  other finite goal.
\<close>

definition progressPct :: "rat \<Rightarrow> log list \<Rightarrow> rat" where
  "progressPct goal ls =
     (let denom = (if goal = 0 then 1 else goal)
      in clamp ((logsTotal ls / denom) * 100) 0 100)"

text \<open>
  \<open>.sort((a, b) => b.date.localeCompare(a.date))\<close>: a stable sort, later dates first.
  On the texts a date input gives (digits and hyphens of one length) \<open>localeCompare\<close>
  orders as the code units do, which is the order of \<open>string\<close> here.
\<close>

fun insertByDate :: "log \<Rightarrow> log list \<Rightarrow> log list" where
  "insertByDate x [] = [x]"
| "insertByDate x (y # ys) =
     (if l_date y < l_date x then x # y # ys else y # insertByDate x ys)"

definition sortByDateDesc :: "log list \<Rightarrow> log list" where
  "sortByDateDesc ls = foldl (\<lambda>sorted x. insertByDate x sorted) [] ls"

text \<open>\<open>milestones.filter(x => before < x.miles && after >= x.miles)\<close> of \<open>addLog\<close>.\<close>

definition newly :: "milestone list \<Rightarrow> rat \<Rightarrow> rat \<Rightarrow> milestone list" where
  "newly milestones before after =
     filter (\<lambda>x. before < m_miles x \<and> after \<ge> m_miles x) milestones"

text \<open>
  \<open>addLog\<close>. \<open>m\<close> is \<open>Number(entryMiles)\<close>; \<open>uuid\<close> is \<open>crypto.randomUUID()\<close> where the host
  has it, and \<open>stamp\<close> is \<open>String(Date.now())\<close>. \<open>nextMilestone\<close> is the value of the last
  render, computed from the total before the append.
\<close>

definition addLog :: "jsnum \<Rightarrow> string option \<Rightarrow> string \<Rightarrow> planner \<Rightarrow> planner" where
  "addLog m uuid stamp st =
     (case m of
        Fin r \<Rightarrow>
          if r \<le> 0 then st\<lparr>notice := EnterMilesGreaterThan0\<rparr>
          else
            let before = logsTotal (logs st);
                after = before + r;
                crossed = newly DEFAULT_MILESTONES before after;
                newLog = \<lparr>l_id = (case uuid of Some u \<Rightarrow> u | None \<Rightarrow> stamp),
                          l_date = entryDate st, l_miles = r\<rparr>
            in st\<lparr>logs := sortByDateDesc (logs st @ [newLog]),
                  entryMiles := [],
                  notice :=
                    (if length crossed > 0 then Unlocked (last crossed)
                     else case nextMilestone DEFAULT_MILESTONES before of
                            Some n \<Rightarrow> LoggedToNext (max 0 (m_miles n - after))
                          | None \<Rightarrow> LoggedQuestComplete)\<rparr>
      | _ \<Rightarrow> st\<lparr>notice := EnterMilesGreaterThan0\<rparr>)"


section \<open>Persistence\<close>

text \<open>
  A JSON value, as \<open>JSON.parse\<close> returns it. What \<open>localStorage.getItem\<close> gave:
  nothing (\<open>null\<close>), a text that \<open>JSON.parse\<close> rejects (the empty text included), or a
  text it accepts with the value it returns.
\<close>

datatype json =
    JNull
  | JBool bool
  | JNum rat
  | JStr string
  | JArr "json list"
  | JObj "(string \<times> json) list"

datatype stored = NoItem | BadText | GoodText json

text \<open>
  \<open>safeParse\<close>: \<open>JSON.parse(null)\<close> is \<open>null\<close>, which \<open>??\<close> replaces by the fallback; a
  rejected text raises inside the \<open>try\<close>.
\<close>

fun safeParse :: "stored \<Rightarrow> json \<Rightarrow> json" where
  "safeParse NoItem fallback = fallback"
| "safeParse BadText fallback = fallback"
| "safeParse (GoodText v) fallback = (if v = JNull then fallback else v)"

text \<open>
  \<open>saved?.key\<close> for the keys the code reads (none is a property of a string, number or
  array): \<open>None\<close> is \<open>undefined\<close>.
\<close>

fun js_get :: "json \<Rightarrow> string \<Rightarrow> json option" where
  "js_get (JObj kvs) k = map_of kvs k"
| "js_get v k = None"

text \<open>\<open>x ?? d\<close>.\<close>

fun nullish :: "json option \<Rightarrow> json \<Rightarrow> json" where
  "nullish None d = d"
| "nullish (Some JNull) d = d"
| "nullish (Some v) d = v"

text \<open>The persisted state variables of \<open>App\<close> as the values \<open>useState\<close> starts them with.\<close>

record loaded =
  ld_goalMiles :: json
  ld_goalDate :: json
  ld_logs :: json
  ld_planEnabled :: json
  ld_planStartDate :: json
  ld_capMiles :: json
  ld_daysPerWeek :: json
  ld_rampStages :: json

definition stageJson :: "stage \<Rightarrow> json" where
  "stageJson s = JObj [(''weeks'', JNum (of_nat (weeks s))), (''milesPerDay'', JNum (milesPerDay s))]"

text \<open>The defaults of lines 104 to 117; \<open>today\<close> is \<open>todayISO()\<close>.\<close>

definition defaults :: "string \<Rightarrow> loaded" where
  "defaults today =
     \<lparr>ld_goalMiles = JNum 1800, ld_goalDate = JStr ''2027-10-12'', ld_logs = JArr [],
      ld_planEnabled = JBool True, ld_planStartDate = JStr today, ld_capMiles = JNum 5,
      ld_daysPerWeek = JNum 7, ld_rampStages = JArr (map stageJson DEFAULT_RAMP_STAGES)\<rparr>"

text \<open>\<open>saved\<close> and the initial values \<open>saved?.key ?? default\<close>.\<close>

definition initialState :: "string \<Rightarrow> stored \<Rightarrow> loaded" where
  "initialState today item =
     (let saved = safeParse item JNull; d = defaults today in
      \<lparr>ld_goalMiles = nullish (js_get saved ''goalMiles'') (ld_goalMiles d),
       ld_goalDate = nullish (js_get saved ''goalDate'') (ld_goalDate d),
       ld_logs = nullish (js_get saved ''logs'') (ld_logs d),
       ld_planEnabled = nullish (js_get saved ''planEnabled'') (ld_planEnabled d),
       ld_planStartDate = nullish (js_get saved ''planStartDate'') (ld_planStartDate d),
       ld_capMiles = nullish (js_get saved ''capMiles'') (ld_capMiles d),
       ld_daysPerWeek = nullish (js_get saved ''daysPerWeek'') (ld_daysPerWeek d),
       ld_rampStages = nullish (js_get saved ''rampStages'') (ld_rampStages d)\<rparr>)"

text \<open>
  The record the persist effect hands to \<open>JSON.stringify\<close>, as the JSON value its text
  denotes.
\<close>

definition logJson :: "log \<Rightarrow> json" where
  "logJson l = JObj [(''id'', JStr (l_id l)), (''date'', JStr (l_date l)), (''miles'', JNum (l_miles l))]"

definition persisted :: "planner \<Rightarrow> json" where
  "persisted st =
     JObj [(''goalMiles'', JNum (goalMiles st)),
           (''goalDate'', JStr (goalDate st)),
           (''logs'', JArr (map logJson (logs st))),
           (''planEnabled'', JBool (planEnabled st)),
           (''planStartDate'', JStr (planStartDate st)),
           (''capMiles'', JNum (capMiles st)),
           (''daysPerWeek'', JNum (daysPerWeek st)),
           (''rampStages'', JArr (map stageJson (rampStages st)))]"

text \<open>The state variables of a planner state as JavaScript values.\<close>

definition stateValues :: "planner \<Rightarrow> loaded" where
  "stateValues st =
     \<lparr>ld_goalMiles = JNum (goalMiles st), ld_goalDate = JStr (goalDate st),
      ld_logs = JArr (map logJson (logs st)), ld_planEnabled = JBool (planEnabled st),
      ld_planStartDate = JStr (planStartDate st), ld_capMiles = JNum (capMiles st),
      ld_daysPerWeek = JNum (daysPerWeek st),
      ld_rampStages = JArr (map stageJson (rampStages st))\<rparr>"

text \<open>
  The odometer variant persists \<open>{ entries }\<close>. \<open>JSON.stringify\<close> writes a number that is
  not finite as \<open>null\<close>.
\<close>

fun numJson :: "jsnum \<Rightarrow> json" where
  "numJson (Fin r) = JNum r"
| "numJson x = JNull"

definition entryJson :: "entry \<Rightarrow> json" where
  "entryJson e =
     JObj [(''id'', JStr (e_id e)), (''miles'', numJson (e_miles e)),
           (''date'', JStr (e_date e)), (''edited'', JBool (e_edited e))]"

definition persistedEntries :: "entry list \<Rightarrow> json" where
  "persistedEntries es = JObj [(''entries'', JArr (map entryJson es))]"

text \<open>
  The load effect of the odometer variant: the \<open>entries\<close> state after it ran. Nothing is
  set when there is no item or an empty text (\<open>!saved\<close>), when \<open>JSON.parse\<close> raises, when
  \<open>parsed\<close> is \<open>null\<close> (\<open>parsed.entries\<close> raises inside the \<open>try\<close>), or when
  \<open>parsed.entries\<close> is not an array.
\<close>

fun loadEntries :: "stored \<Rightarrow> json list" where
  "loadEntries NoItem = []"
| "loadEntries BadText = []"
| "loadEntries (GoodText JNull) = []"
| "loadEntries (GoodText v) =
     (case js_get v ''entries'' of Some (JArr xs) \<Rightarrow> xs | _ \<Rightarrow> [])"

section \<open>Rounding to doubles\<close>

text \<open>
  The definitions above add finite numbers as rationals. Where a milestone is crossed by
  a hair, the rounding of each sum to a double decides what the handlers see; this section
  adds it. \<open>dbl x\<close> is the double nearest to a rational, ties to the even mantissa
  (IEEE 754 binary64, round to nearest): the value is scaled to a mantissa of 53 bits, the
  mantissa is rounded to an integer and scaled back. The range of the exponent (overflow,
  subnormal numbers) is not modelled. \<open>flog2 y\<close> is the integer part of the binary
  logarithm of a positive \<open>y\<close>.
\<close>

definition flog2 :: "rat \<Rightarrow> int" where
  "flog2 y = (if 1 \<le> y then bitlen \<lfloor>y\<rfloor> - 1 else - bitlen (\<lceil>1 / y\<rceil> - 1))"

definition roundHalfEven :: "rat \<Rightarrow> int" where
  "roundHalfEven q =
     (let f = \<lfloor>q\<rfloor> in
      if q - of_int f < 1 / 2 then f
      else if 1 / 2 < q - of_int f then f + 1
      else if even f then f else f + 1)"

definition pow2 :: "int \<Rightarrow> rat" where
  "pow2 e = (if 0 \<le> e then 2 ^ nat e else 1 / 2 ^ nat (- e))"

definition dbl :: "rat \<Rightarrow> rat" where
  "dbl x =
     (if x = 0 then 0
      else let e = flog2 \<bar>x\<bar> - 52;
               n = roundHalfEven (\<bar>x\<bar> / pow2 e)
           in sgn x * of_int n * pow2 e)"

text \<open>
  \<open>totalMiles\<close> of \<open>App\<close> and \<open>addLog\<close> once more, with every sum and difference rounded by
  \<open>rnd\<close>: with the identity they are \<open>logsTotal\<close> and \<open>addLog\<close>, with \<open>dbl\<close> they compute
  what the program computes in doubles.
\<close>

definition logsTotalIn :: "(rat \<Rightarrow> rat) \<Rightarrow> log list \<Rightarrow> rat" where
  "logsTotalIn rnd ls = foldl (\<lambda>s r. rnd (s + l_miles r)) 0 ls"

definition addLogIn :: "(rat \<Rightarrow> rat) \<Rightarrow> jsnum \<Rightarrow> string option \<Rightarrow> string \<Rightarrow> planner \<Rightarrow> planner" where
  "addLogIn rnd m uuid stamp st =
     (case m of
        Fin r \<Rightarrow>
          if r \<le> 0 then st\<lparr>notice := EnterMilesGreaterThan0\<rparr>
          else
            let before = logsTotalIn rnd (logs st);
                after = rnd (before + r);
                crossed = newly DEFAULT_MILESTONES before after;
                newLog = \<lparr>l_id = (case uuid of Some u \<Rightarrow> u | None \<Rightarrow> stamp),
                          l_date = entryDate st, l_miles = r\<rparr>
            in st\<lparr>logs := sortByDateDesc (logs st @ [newLog]),
                  entryMiles := [],
                  notice :=
                    (if length crossed > 0 then Unlocked (last crossed)
                     else case nextMilestone DEFAULT_MILESTONES before of
                            Some n \<Rightarrow> LoggedToNext (max 0 (rnd (m_miles n - after)))
                          | None \<Rightarrow> LoggedQuestComplete)\<rparr>
      | _ \<Rightarrow> st\<lparr>notice := EnterMilesGreaterThan0\<rparr>)"

section \<open>The number field and the host's identifiers\<close>










section \<open>The first render after loading\<close>

text \<open>
  What a handler or a render of the code can raise.
\<close>

datatype error = TypeError

text \<open>
  The call \<open>logs.reduce\<close> of line 121, which every render of \<open>App\<close> makes on the value of
  the state variable \<open>logs\<close> (\<open>useMemo\<close> runs it in the first render): among the values that
  \<open>JSON.parse\<close> returns only an array has the method, on every other one \<open>logs.reduce\<close> is
  \<open>undefined\<close> or not a function and the call raises a \<open>TypeError\<close>. The result here is the list of
  the elements that the reduction then goes through; what its callback does on them is
  not modelled.
\<close>

fun logs_reduce :: "json \<Rightarrow> error + json list" where
  "logs_reduce (JArr xs) = Inr xs"
| "logs_reduce v = Inl TypeError"

section \<open>Properties of the milestone resolver\<close>

lemma jge_Fin [simp]: "jge (Fin a) (Fin b) = (b \<le> a)"
  by (simp add: jge_def)

lemma jgt_Fin [simp]: "jgt (Fin a) (Fin b) = (b < a)"
  by (simp add: jgt_def)

lemma find_rev_filter:
  "List.find P (rev xs) = (if filter P xs = [] then None else Some (last (filter P xs)))"
  by (induction xs rule: rev_induct) auto

lemma find_hd_filter:
  "List.find P xs = (if filter P xs = [] then None else Some (hd (filter P xs)))"
  by (induction xs) auto

lemma sorted_wrt_last:
  "sorted_wrt R ys \<Longrightarrow> y \<in> set ys \<Longrightarrow> y = last ys \<or> R y (last ys)"
  by (induction ys) auto

lemma sorted_wrt_hd:
  "sorted_wrt R ys \<Longrightarrow> y \<in> set ys \<Longrightarrow> y = hd ys \<or> R (hd ys) y"
  by (induction ys) auto

lemma lastReached_eq_unlocked:
  "lastReached table t = getUnlockedMilestoneOn table (Fin t)"
  by (simp add: lastReached_def getUnlockedMilestoneOn_def reachedMilestones_def
      js_at_last_def find_rev_filter)

lemma getUnlockedMilestone_On:
  "getUnlockedMilestoneOn MILESTONES t = Some (getUnlockedMilestone t)"
  by (simp add: getUnlockedMilestoneOn_def getUnlockedMilestone_def js_index_def MILESTONES_def
      split: option.splits)

lemma nextMilestone_eq_next:
  "nextMilestone table t = getNextMilestoneOn table (Fin t)"
  by (simp add: nextMilestone_def getNextMilestoneOn_def)

text \<open>The resolvers on any table that satisfies the table invariant.\<close>

lemma reached_nonempty:
  assumes "table_ok table" "0 \<le> t"
  shows "reachedMilestones table t \<noteq> []"
proof -
  from assms have "hd table \<in> set table" "m_miles (hd table) \<le> t"
    by (auto simp: table_ok_def)
  then have "hd table \<in> set (reachedMilestones table t)"
    by (simp add: reachedMilestones_def)
  then show ?thesis by auto
qed

lemma lastReached_spec:
  assumes "table_ok table" "0 \<le> t"
  shows "\<exists>c. lastReached table t = Some c \<and> c = last (filter (\<lambda>m. m_miles m \<le> t) table)
           \<and> c \<in> set table \<and> m_miles c \<le> t
           \<and> (\<forall>m\<in>set table. m_miles m \<le> t \<longrightarrow> m_miles m \<le> m_miles c)"
proof -
  let ?ys = "reachedMilestones table t"
  have ne: "?ys \<noteq> []" using assms by (rule reached_nonempty)
  then have lr: "lastReached table t = Some (last ?ys)"
    by (simp add: lastReached_def js_at_last_def)
  have mem: "last ?ys \<in> set ?ys" using ne by simp
  have srt: "sorted_wrt (\<lambda>a b. m_miles a < m_miles b) ?ys"
    using assms(1) by (simp add: table_ok_def reachedMilestones_def sorted_wrt_filter)
  have top: "m_miles m \<le> m_miles (last ?ys)" if "m \<in> set table" "m_miles m \<le> t" for m
  proof -
    from that have "m \<in> set ?ys" by (simp add: reachedMilestones_def)
    from sorted_wrt_last[OF srt this] show ?thesis by auto
  qed
  show ?thesis
    using lr mem top by (auto simp: reachedMilestones_def)
qed

lemma nextMilestone_spec:
  assumes "table_ok table"
  shows "(nextMilestone table t = None \<longleftrightarrow> m_miles (last table) \<le> t)
       \<and> (\<forall>n. nextMilestone table t = Some n \<longrightarrow>
             n = hd (filter (\<lambda>m. t < m_miles m) table) \<and> n \<in> set table \<and> t < m_miles n
             \<and> (\<forall>m\<in>set table. t < m_miles m \<longrightarrow> m_miles n \<le> m_miles m))"
proof -
  let ?ys = "filter (\<lambda>m. t < m_miles m) table"
  have srt: "sorted_wrt (\<lambda>a b. m_miles a < m_miles b) table" and ne: "table \<noteq> []"
    using assms by (simp_all add: table_ok_def)
  have none: "(?ys = []) \<longleftrightarrow> m_miles (last table) \<le> t"
  proof
    assume "?ys = []"
    then have "\<forall>m\<in>set table. \<not> t < m_miles m" by (simp add: filter_empty_conv)
    with ne show "m_miles (last table) \<le> t" by (meson last_in_set not_less)
  next
    assume le: "m_miles (last table) \<le> t"
    have "m_miles m \<le> t" if "m \<in> set table" for m
      using sorted_wrt_last[OF srt that] le by auto
    then have "\<forall>m\<in>set table. \<not> t < m_miles m" by (simp add: not_less)
    then show "?ys = []" by (simp add: filter_empty_conv)
  qed
  have srt': "sorted_wrt (\<lambda>a b. m_miles a < m_miles b) ?ys"
    using srt by (simp add: sorted_wrt_filter)
  have low: "m_miles (hd ?ys) \<le> m_miles m" if "m \<in> set table" "t < m_miles m" for m
  proof -
    from that have "m \<in> set ?ys" by simp
    from sorted_wrt_hd[OF srt' this] show ?thesis by auto
  qed
  have hdmem: "hd ?ys \<in> set table \<and> t < m_miles (hd ?ys)" if "?ys \<noteq> []"
  proof -
    from that have "hd ?ys \<in> set ?ys" by (rule hd_in_set)
    then show ?thesis by simp
  qed
  show ?thesis
    unfolding nextMilestone_def find_hd_filter
    using none low hdmem by (simp del: hd_in_set)
qed

lemma table_ok_MILESTONES: "table_ok MILESTONES"
  by (simp add: table_ok_def MILESTONES_def)

lemma table_ok_DEFAULT_MILESTONES: "table_ok DEFAULT_MILESTONES"
  by (simp add: table_ok_def DEFAULT_MILESTONES_def)

text \<open>
  Claim C10. The two variants resolve the current milestone in the same way: on every
  table and for every finite total, \<open>lastReached\<close> of backup.jsx (the last element of
  the reached milestones, else the first milestone) is \<open>getUnlockedMilestone\<close> of the
  odometer variant (the first hit in the reversed table, else the first milestone). No
  assumption on the table or on the sign of the total is needed. The second part ties the
  table-parametric form to the source function on its constant table.
\<close>

theorem resolvers_agree:
  "lastReached table t = getUnlockedMilestoneOn table (Fin t)
   \<and> lastReached MILESTONES t = Some (getUnlockedMilestone (Fin t))"
  by (simp add: lastReached_eq_unlocked getUnlockedMilestone_On)

text \<open>
  Claim C5. For every total \<open>t \<ge> 0\<close>, in both variants: the current milestone is the last
  one in table order with threshold at most \<open>t\<close>, its threshold is at most \<open>t\<close> and no
  milestone with a threshold at most \<open>t\<close> has a higher one; the next milestone is absent
  exactly when \<open>t\<close> has reached the highest threshold (1800 in both tables), and otherwise
  it is the first one in table order with a threshold above \<open>t\<close>, which is the lowest such
  threshold.
\<close>

theorem current_and_next_milestone:
  assumes "0 \<le> t"
  shows "(getUnlockedMilestone (Fin t) = last (filter (\<lambda>m. m_miles m \<le> t) MILESTONES)
          \<and> getUnlockedMilestone (Fin t) \<in> set MILESTONES
          \<and> m_miles (getUnlockedMilestone (Fin t)) \<le> t
          \<and> (\<forall>m\<in>set MILESTONES. m_miles m \<le> t \<longrightarrow>
                m_miles m \<le> m_miles (getUnlockedMilestone (Fin t))))
       \<and> ((getNextMilestone (Fin t) = None) = (1800 \<le> t))
       \<and> (\<forall>n. getNextMilestone (Fin t) = Some n \<longrightarrow>
             n = hd (filter (\<lambda>m. t < m_miles m) MILESTONES) \<and> n \<in> set MILESTONES
             \<and> t < m_miles n
             \<and> (\<forall>m\<in>set MILESTONES. t < m_miles m \<longrightarrow> m_miles n \<le> m_miles m))
       \<and> (\<exists>c. lastReached DEFAULT_MILESTONES t = Some c
             \<and> c = last (filter (\<lambda>m. m_miles m \<le> t) DEFAULT_MILESTONES)
             \<and> c \<in> set DEFAULT_MILESTONES \<and> m_miles c \<le> t
             \<and> (\<forall>m\<in>set DEFAULT_MILESTONES. m_miles m \<le> t \<longrightarrow> m_miles m \<le> m_miles c))
       \<and> ((nextMilestone DEFAULT_MILESTONES t = None) = (1800 \<le> t))
       \<and> (\<forall>n. nextMilestone DEFAULT_MILESTONES t = Some n \<longrightarrow>
             n = hd (filter (\<lambda>m. t < m_miles m) DEFAULT_MILESTONES)
             \<and> n \<in> set DEFAULT_MILESTONES \<and> t < m_miles n
             \<and> (\<forall>m\<in>set DEFAULT_MILESTONES. t < m_miles m \<longrightarrow> m_miles n \<le> m_miles m))"
proof -
  have lastM: "m_miles (last MILESTONES) = 1800"
    by (simp add: MILESTONES_def)
  have lastD: "m_miles (last DEFAULT_MILESTONES) = 1800"
    by (simp add: DEFAULT_MILESTONES_def)
  from lastReached_spec[OF table_ok_MILESTONES assms]
  have odo_current:
    "getUnlockedMilestone (Fin t) = last (filter (\<lambda>m. m_miles m \<le> t) MILESTONES)
      \<and> getUnlockedMilestone (Fin t) \<in> set MILESTONES
      \<and> m_miles (getUnlockedMilestone (Fin t)) \<le> t
      \<and> (\<forall>m\<in>set MILESTONES. m_miles m \<le> t \<longrightarrow>
            m_miles m \<le> m_miles (getUnlockedMilestone (Fin t)))"
    unfolding lastReached_eq_unlocked getUnlockedMilestone_On by blast
  have odo_next: "getNextMilestone (Fin t) = nextMilestone MILESTONES t"
    by (simp add: getNextMilestone_def nextMilestone_eq_next)
  note nm = nextMilestone_spec[OF table_ok_MILESTONES, of t, unfolded lastM]
  note pc = lastReached_spec[OF table_ok_DEFAULT_MILESTONES assms]
  note pn = nextMilestone_spec[OF table_ok_DEFAULT_MILESTONES, of t, unfolded lastD]
  show ?thesis
    unfolding odo_next using odo_current nm pc pn by blast
qed

theorem current_and_next_milestone_witness:
  "(0::rat) \<le> 130
   \<and> getUnlockedMilestone (Fin 130) = MILESTONES ! 1
   \<and> m_miles (getUnlockedMilestone (Fin 130)) \<le> 130
   \<and> getNextMilestone (Fin 130) = Some (MILESTONES ! 2)
   \<and> lastReached DEFAULT_MILESTONES 130 = Some (DEFAULT_MILESTONES ! 1)
   \<and> nextMilestone DEFAULT_MILESTONES 130 = Some (DEFAULT_MILESTONES ! 2)
   \<and> getNextMilestone (Fin 1800) = None"
proof -
  have h: "(0::rat) \<le> 130" by simp
  note T = current_and_next_milestone[OF h]
  from T have a: "m_miles (getUnlockedMilestone (Fin 130)) \<le> 130" by blast
  have b: "getUnlockedMilestone (Fin 130) = MILESTONES ! 1"
    by (simp add: getUnlockedMilestone_def MILESTONES_def)
  have c: "getNextMilestone (Fin 130) = Some (MILESTONES ! 2)"
    by (simp add: getNextMilestone_def getNextMilestoneOn_def MILESTONES_def)
  have d: "lastReached DEFAULT_MILESTONES 130 = Some (DEFAULT_MILESTONES ! 1)"
    by (simp add: lastReached_def reachedMilestones_def js_at_last_def DEFAULT_MILESTONES_def)
  have e: "nextMilestone DEFAULT_MILESTONES 130 = Some (DEFAULT_MILESTONES ! 2)"
    by (simp add: nextMilestone_def DEFAULT_MILESTONES_def)
  have f: "getNextMilestone (Fin 1800) = None"
    by (simp add: getNextMilestone_def getNextMilestoneOn_def MILESTONES_def)
  show ?thesis using h a b c d e f by blast
qed

section \<open>Properties of the ramp plan\<close>

lemma plannedLoop_sum_list:
  "plannedLoop i n stages cap dpw acc =
     acc + sum_list (map (\<lambda>d. dayMiles d stages cap) (filter (\<lambda>d. isActiveDay d dpw) [i..<nat n]))"
proof (induction i n stages cap dpw acc rule: plannedLoop.induct)
  case (1 i totalDays stages capMiles daysPerWeek acc)
  show ?case
  proof (cases "int i < totalDays")
    case False
    then have "[i..<nat totalDays] = []" by simp
    with False show ?thesis by (subst plannedLoop.simps) simp
  next
    case True
    then have upt: "[i..<nat totalDays] = i # [Suc i..<nat totalDays]"
      by (simp add: upt_conv_Cons)
    show ?thesis
    proof (cases "isActiveDay i daysPerWeek")
      case True
      with \<open>int i < totalDays\<close> "1.IH"(2) show ?thesis
        by (subst plannedLoop.simps) (simp add: upt)
    next
      case False
      with \<open>int i < totalDays\<close> "1.IH"(1) show ?thesis
        by (subst plannedLoop.simps) (simp add: upt)
    qed
  qed
qed

lemma sum_list_active_days:
  "sum_list (map f (filter P [0..<nat n])) = sum f {d. int d < n \<and> P d}"
proof -
  have "sum_list (map f (filter P [0..<nat n])) = sum f (set (filter P [0..<nat n]))"
    by (rule sum_list_distinct_conv_sum_set) simp
  also have "set (filter P [0..<nat n]) = {d. int d < n \<and> P d}"
    by auto
  finally show ?thesis .
qed

lemma planned_closed_form:
  "plannedMilesThroughDate (Midnight a) (Midnight b) stages cap dpw =
     (if b < a then 0
      else sum (\<lambda>d. dayMiles d stages cap) {d. int d < daysDiffInclusive a b \<and> isActiveDay d dpw})"
  by (simp add: plannedLoop_sum_list sum_list_active_days)

lemma stageLoop_past:
  "sum_list (map (\<lambda>s. weeks s * 7) stages) \<le> d \<Longrightarrow>
     stageLoop i d stages = \<lparr>stageIndex = i + length stages, milesPerDayOrNull = None\<rparr>"
  by (induction stages arbitrary: i d) auto

lemma stageLoop_within:
  "k < length stages \<Longrightarrow> sum_list (map (\<lambda>s. weeks s * 7) (take k stages)) \<le> d \<Longrightarrow>
   d < sum_list (map (\<lambda>s. weeks s * 7) (take (Suc k) stages)) \<Longrightarrow>
     stageLoop i d stages = \<lparr>stageIndex = i + k, milesPerDayOrNull = Some (milesPerDay (stages ! k))\<rparr>"
proof (induction stages arbitrary: i d k)
  case Nil
  then show ?case by simp
next
  case (Cons s rest)
  show ?case
  proof (cases k)
    case 0
    with Cons.prems show ?thesis by simp
  next
    case (Suc j)
    with Cons.prems have j: "j < length rest"
      and lo: "sum_list (map (\<lambda>s. weeks s * 7) (take j rest)) \<le> d - weeks s * 7"
      and hi: "d - weeks s * 7 < sum_list (map (\<lambda>s. weeks s * 7) (take (Suc j) rest))"
      and ge: "weeks s * 7 \<le> d"
      by auto
    from Cons.IH[OF j lo hi, of "Suc i"] ge Suc show ?thesis by simp
  qed
qed

lemma dayMiles_past: "sum_list (map (\<lambda>s. weeks s * 7) stages) \<le> d \<Longrightarrow> dayMiles d stages cap = cap"
  by (simp add: dayMiles_def getStageForDayIndex_def stageLoop_past)

lemma dayMiles_within:
  "k < length stages \<Longrightarrow> sum_list (map (\<lambda>s. weeks s * 7) (take k stages)) \<le> d \<Longrightarrow>
   d < sum_list (map (\<lambda>s. weeks s * 7) (take (Suc k) stages)) \<Longrightarrow>
   dayMiles d stages cap = milesPerDay (stages ! k)"
  using stageLoop_within[of k stages d 0] by (simp add: dayMiles_def getStageForDayIndex_def)

lemma scenario_days: "daysDiffInclusive a (a + 6 * 86400000) = 7" "daysDiffInclusive a (a + 13 * 86400000) = 14"
  by (simp_all add: daysDiffInclusive_def)

lemma dayMiles_scenario:
  "dayMiles d [\<lparr>weeks = 1, milesPerDay = 2\<rparr>] 5 = (if d < 7 then 2 else 5)"
  by (simp add: dayMiles_def getStageForDayIndex_def)

lemma active7: "isActiveDay d 7"
  by (simp add: isActiveDay_def)

lemma upt_7: "[0..<nat 7] = [0, 1, 2, 3, 4, 5, 6]"
  by (simp add: upt_conv_Cons)

lemma upt_14: "[0..<nat 14] = [0, 1, 2, 3, 4, 5, 6, 7, 8, 9, 10, 11, 12, 13]"
  by (simp add: upt_conv_Cons)

lemma scenario_14:
  "plannedMilesThroughDate (Midnight a) (Midnight (a + 6 * 86400000))
     [\<lparr>weeks = 1, milesPerDay = 2\<rparr>] 5 7 = 14"
proof -
  have "\<not> a + 6 * 86400000 < a" by simp
  then have "plannedMilesThroughDate (Midnight a) (Midnight (a + 6 * 86400000))
       [\<lparr>weeks = 1, milesPerDay = 2\<rparr>] 5 7
     = plannedLoop 0 (daysDiffInclusive a (a + 6 * 86400000)) [\<lparr>weeks = 1, milesPerDay = 2\<rparr>] 5 7 0"
    by (simp only: plannedMilesThroughDate.simps if_False)
  also have "\<dots> = 0 + sum_list (map (\<lambda>d. dayMiles d [\<lparr>weeks = 1, milesPerDay = 2\<rparr>] 5)
       (filter (\<lambda>d. isActiveDay d 7) [0..<nat 7]))"
    unfolding scenario_days by (rule plannedLoop_sum_list)
  also have "\<dots> = 14"
    unfolding upt_7 dayMiles_scenario by (simp add: active7)
  finally show ?thesis .
qed

lemma scenario_49:
  "plannedMilesThroughDate (Midnight a) (Midnight (a + 13 * 86400000))
     [\<lparr>weeks = 1, milesPerDay = 2\<rparr>] 5 7 = 49"
proof -
  have "\<not> a + 13 * 86400000 < a" by simp
  then have "plannedMilesThroughDate (Midnight a) (Midnight (a + 13 * 86400000))
       [\<lparr>weeks = 1, milesPerDay = 2\<rparr>] 5 7
     = plannedLoop 0 (daysDiffInclusive a (a + 13 * 86400000)) [\<lparr>weeks = 1, milesPerDay = 2\<rparr>] 5 7 0"
    by (simp only: plannedMilesThroughDate.simps if_False)
  also have "\<dots> = 0 + sum_list (map (\<lambda>d. dayMiles d [\<lparr>weeks = 1, milesPerDay = 2\<rparr>] 5)
       (filter (\<lambda>d. isActiveDay d 7) [0..<nat 14]))"
    unfolding scenario_days by (rule plannedLoop_sum_list)
  also have "\<dots> = 49"
    unfolding upt_14 dayMiles_scenario by (simp add: active7)
  finally show ?thesis .
qed

text \<open>
  \<open>daysDiffInclusive\<close> rounds down: where a change of the clock makes the two local
  midnights an hour less than six days apart, it counts six days, not seven, and the
  plan of the scenario is 12.
\<close>

lemma scenario_across_clock_change:
  "daysDiffInclusive a (a + 6 * 86400000 - 3600000) = 6
   \<and> plannedMilesThroughDate (Midnight a) (Midnight (a + 6 * 86400000 - 3600000))
        [\<lparr>weeks = 1, milesPerDay = 2\<rparr>] 5 7 = 12"
proof -
  have days: "daysDiffInclusive a (a + 6 * 86400000 - 3600000) = 6"
    by (simp add: daysDiffInclusive_def)
  have upt_6: "[0..<nat 6] = [0, 1, 2, 3, 4, 5]"
    by (simp add: upt_conv_Cons)
  have "\<not> a + 6 * 86400000 - 3600000 < a" by simp
  then have "plannedMilesThroughDate (Midnight a) (Midnight (a + 6 * 86400000 - 3600000))
       [\<lparr>weeks = 1, milesPerDay = 2\<rparr>] 5 7
     = plannedLoop 0 (daysDiffInclusive a (a + 6 * 86400000 - 3600000))
         [\<lparr>weeks = 1, milesPerDay = 2\<rparr>] 5 7 0"
    by (simp only: plannedMilesThroughDate.simps if_False)
  also have "\<dots> = 0 + sum_list (map (\<lambda>d. dayMiles d [\<lparr>weeks = 1, milesPerDay = 2\<rparr>] 5)
       (filter (\<lambda>d. isActiveDay d 7) [0..<nat 6]))"
    unfolding days by (rule plannedLoop_sum_list)
  also have "\<dots> = 12"
    unfolding upt_6 dayMiles_scenario by (simp add: active7)
  finally show ?thesis using days by simp
qed

lemma planned_empty_stages:
  "plannedMilesThroughDate (Midnight a) (Midnight b) [] cap dpw =
     (if b < a then 0 else cap * of_nat (card {d. int d < daysDiffInclusive a b \<and> isActiveDay d dpw}))"
proof -
  have "dayMiles d [] cap = cap" for d
    by (simp add: dayMiles_def getStageForDayIndex_def)
  then show ?thesis
    unfolding planned_closed_form by (simp add: mult.commute)
qed

lemma stageLoop_rate:
  "milesPerDayOrNull (stageLoop i d stages) = Some r \<Longrightarrow> \<exists>s\<in>set stages. r = milesPerDay s"
  by (induction stages arbitrary: i d) (auto split: if_splits)

lemma dayMiles_nonneg:
  assumes "0 \<le> cap" "list_all (\<lambda>s. 0 \<le> milesPerDay s) stages"
  shows "0 \<le> dayMiles d stages cap"
  using stageLoop_rate[of 0 d stages] assms
  by (auto simp: dayMiles_def getStageForDayIndex_def list_all_iff split: option.splits)

lemma valid_plan_nonneg:
  assumes "valid_plan stages cap dpw"
  shows "0 \<le> dayMiles d stages cap"
proof (rule dayMiles_nonneg)
  from assms show "0 \<le> cap" by (simp add: valid_plan_def)
  from assms have "list_all (\<lambda>s. 1 / 2 \<le> milesPerDay s) stages"
    by (simp add: valid_plan_def list_all_iff)
  then show "list_all (\<lambda>s. 0 \<le> milesPerDay s) stages"
    by (auto simp: list_all_iff intro: order_trans[rotated])
qed

lemma daysDiffInclusive_mono: "d1 \<le> d2 \<Longrightarrow> daysDiffInclusive a d1 \<le> daysDiffInclusive a d2"
  by (simp add: daysDiffInclusive_def zdiv_mono1)

lemma planned_mono:
  assumes nn: "\<And>d. 0 \<le> dayMiles d stages cap" and le: "d1 \<le> d2"
  shows "plannedMilesThroughDate (Midnight a) (Midnight d1) stages cap dpw
       \<le> plannedMilesThroughDate (Midnight a) (Midnight d2) stages cap dpw"
proof (cases "d1 < a")
  case True
  then show ?thesis
    unfolding planned_closed_form using nn by (simp add: sum_nonneg)
next
  case False
  with le have "\<not> d2 < a" by simp
  have fin: "finite {d. int d < daysDiffInclusive a d2 \<and> isActiveDay d dpw}"
  proof (rule finite_subset)
    show "{d. int d < daysDiffInclusive a d2 \<and> isActiveDay d dpw} \<subseteq> {..<nat (daysDiffInclusive a d2)}"
      by auto
  qed simp
  have sub: "{d. int d < daysDiffInclusive a d1 \<and> isActiveDay d dpw}
           \<subseteq> {d. int d < daysDiffInclusive a d2 \<and> isActiveDay d dpw}"
    using daysDiffInclusive_mono[OF le, of a] by auto
  show ?thesis
    unfolding planned_closed_form using False \<open>\<not> d2 < a\<close>
    by (simp add: sum_mono2[OF fin sub] nn)
qed

lemma scenario_five_active_days:
  "plannedMilesThroughDate (Midnight a) (Midnight (a + 13 * 86400000))
     [\<lparr>weeks = 1, milesPerDay = 2\<rparr>] 5 5 = 35"
proof -
  have "\<not> a + 13 * 86400000 < a" by simp
  then have "plannedMilesThroughDate (Midnight a) (Midnight (a + 13 * 86400000))
       [\<lparr>weeks = 1, milesPerDay = 2\<rparr>] 5 5
     = plannedLoop 0 (daysDiffInclusive a (a + 13 * 86400000)) [\<lparr>weeks = 1, milesPerDay = 2\<rparr>] 5 5 0"
    by (simp only: plannedMilesThroughDate.simps if_False)
  also have "\<dots> = 0 + sum_list (map (\<lambda>d. dayMiles d [\<lparr>weeks = 1, milesPerDay = 2\<rparr>] 5)
       (filter (\<lambda>d. isActiveDay d 5) [0..<nat 14]))"
    unfolding scenario_days by (rule plannedLoop_sum_list)
  also have "\<dots> = 35"
    unfolding upt_14 dayMiles_scenario by (simp add: isActiveDay_def)
  finally show ?thesis .
qed

text \<open>
  Claim C3 fails on the code where the clock changes between the two dates. In the time
  zone of New York the local midnight of 2025-03-05 is 05:00 UTC, timestamp
  1741150800000, and after the change to summer time on 2025-03-09 the local midnight of
  2025-03-11 is 04:00 UTC, timestamp 1741665600000: an hour less than six days later.
  \<open>Math.floor\<close> makes five days of it, \<open>daysDiffInclusive\<close> returns 6 for the seven days
  from 2025-03-05 to 2025-03-11, and the plan of the scenario (one week at 2 a day, cap 5,
  seven active days) through the start date plus six days is 12, not 14. In a zone
  without a change (UTC: timestamps 1741132800000 and 1741651200000) it is 14; there,
  with five active days a week, the plan through the start date plus 13 days
  (timestamp 1742256000000) is five days at 2 and five at the cap, 35.
\<close>

theorem planned_across_clock_change:
  "daysDiffInclusive 1741150800000 1741665600000 = 6
   \<and> plannedMilesThroughDate (Midnight 1741150800000) (Midnight 1741665600000)
        [\<lparr>weeks = 1, milesPerDay = 2\<rparr>] 5 7 = 12
   \<and> daysDiffInclusive 1741132800000 1741651200000 = 7
   \<and> plannedMilesThroughDate (Midnight 1741132800000) (Midnight 1741651200000)
        [\<lparr>weeks = 1, milesPerDay = 2\<rparr>] 5 7 = 14
   \<and> plannedMilesThroughDate (Midnight 1741132800000) (Midnight 1742256000000)
        [\<lparr>weeks = 1, milesPerDay = 2\<rparr>] 5 5 = 35"
proof -
  have a: "daysDiffInclusive 1741150800000 1741665600000 = 6"
    by (simp add: daysDiffInclusive_def)
  have b: "plannedMilesThroughDate (Midnight 1741150800000) (Midnight 1741665600000)
        [\<lparr>weeks = 1, milesPerDay = 2\<rparr>] 5 7 = 12"
    using scenario_across_clock_change[of 1741150800000, THEN conjunct2] by simp
  have c: "daysDiffInclusive 1741132800000 1741651200000 = 7"
    by (simp add: daysDiffInclusive_def)
  have d: "plannedMilesThroughDate (Midnight 1741132800000) (Midnight 1741651200000)
        [\<lparr>weeks = 1, milesPerDay = 2\<rparr>] 5 7 = 14"
    using scenario_14[of 1741132800000] by simp
  have e: "plannedMilesThroughDate (Midnight 1741132800000) (Midnight 1742256000000)
        [\<lparr>weeks = 1, milesPerDay = 2\<rparr>] 5 5 = 35"
    using scenario_five_active_days[of 1741132800000] by simp
  from a b c d e show ?thesis by (intro conjI)
qed

text \<open>
  Claim C8. For a valid plan configuration and two dates \<open>d1 \<le> d2\<close>, the plan through
  \<open>d1\<close> is at most the plan through \<open>d2\<close>, and every day's rate, a stage rate of at
  least 0.5 or the positive cap, is at least 0. The inequality also holds when \<open>d1\<close>
  lies before the start.
\<close>

theorem plannedThrough_nondecreasing:
  assumes "valid_plan stages cap dpw" and "d1 \<le> d2"
  shows "plannedMilesThroughDate (Midnight a) (Midnight d1) stages cap dpw
       \<le> plannedMilesThroughDate (Midnight a) (Midnight d2) stages cap dpw
     \<and> 0 \<le> dayMiles d stages cap"
proof
  show "plannedMilesThroughDate (Midnight a) (Midnight d1) stages cap dpw
       \<le> plannedMilesThroughDate (Midnight a) (Midnight d2) stages cap dpw"
    using valid_plan_nonneg[OF assms(1)] assms(2) by (rule planned_mono)
  show "0 \<le> dayMiles d stages cap"
    using assms(1) by (rule valid_plan_nonneg)
qed

theorem plannedThrough_nondecreasing_witness:
  "valid_plan DEFAULT_RAMP_STAGES 5 7 \<and> (0::int) \<le> 86400000
   \<and> plannedMilesThroughDate (Midnight 0) (Midnight 0) DEFAULT_RAMP_STAGES 5 7 = 2
   \<and> plannedMilesThroughDate (Midnight 0) (Midnight 86400000) DEFAULT_RAMP_STAGES 5 7 = 4
   \<and> plannedMilesThroughDate (Midnight 0) (Midnight 0) DEFAULT_RAMP_STAGES 5 7
       \<le> plannedMilesThroughDate (Midnight 0) (Midnight 86400000) DEFAULT_RAMP_STAGES 5 7"
proof -
  have v: "valid_plan DEFAULT_RAMP_STAGES 5 7"
    by (simp add: valid_plan_def DEFAULT_RAMP_STAGES_def)
  have le: "(0::int) \<le> 86400000" by simp
  have dd: "daysDiffInclusive 0 0 = 1" "daysDiffInclusive 0 86400000 = 2"
    by (simp_all add: daysDiffInclusive_def)
  have dm: "dayMiles 0 DEFAULT_RAMP_STAGES 5 = 2" "dayMiles (Suc 0) DEFAULT_RAMP_STAGES 5 = 2"
    by (simp_all add: dayMiles_def getStageForDayIndex_def DEFAULT_RAMP_STAGES_def)
  have x: "plannedMilesThroughDate (Midnight 0) (Midnight 0) DEFAULT_RAMP_STAGES 5 7 = 2"
    by (simp add: plannedLoop_sum_list dd dm active7)
  have y: "plannedMilesThroughDate (Midnight 0) (Midnight 86400000) DEFAULT_RAMP_STAGES 5 7 = 4"
    by (simp add: plannedLoop_sum_list dd dm active7 upt_conv_Cons)
  note T = plannedThrough_nondecreasing[OF v le, of 0, THEN conjunct1]
  from v le x y T show ?thesis by (intro conjI)
qed

section \<open>Properties of the progress aggregator\<close>

lemma foldl_add_sum_list: "foldl (\<lambda>s r. s + f r) a xs = a + sum_list (map f xs)"
  for a :: rat
  by (induction xs arbitrary: a) (simp_all add: add.assoc)

lemma logsTotal_sum_list: "logsTotal ls = sum_list (map l_miles ls)"
  by (simp add: logsTotal_def foldl_add_sum_list)

text \<open>
  Claim C1, as amended. The percentage is \<open>clamp(total / d * 100, 0, 100)\<close> where the
  denominator \<open>d\<close> is the goal itself, a goal of 0 being replaced by 1 (\<open>Number(goalMiles) || 1\<close>);
  the total is the sum of the logged miles, and the result lies in [0, 100]. The
  formula with \<open>max(1, goal)\<close> gives the same value when the goal is 0 or at least 1.
\<close>

theorem progressPct_denominator:
  "progressPct goal ls = clamp (logsTotal ls / (if goal = 0 then 1 else goal) * 100) 0 100
   \<and> logsTotal ls = sum_list (map l_miles ls)
   \<and> 0 \<le> progressPct goal ls \<and> progressPct goal ls \<le> 100
   \<and> (goal = 0 \<or> 1 \<le> goal \<longrightarrow>
         progressPct goal ls = clamp (logsTotal ls / max 1 goal * 100) 0 100)"
  by (auto simp: progressPct_def Let_def logsTotal_sum_list clamp_def max_def)

theorem progressPct_denominator_witness:
  "((1800::rat) = 0 \<or> (1::rat) \<le> 1800)
   \<and> progressPct 1800 [\<lparr>l_id = ''a'', l_date = ''2025-01-01'', l_miles = 90\<rparr>] = 5
   \<and> clamp (logsTotal [\<lparr>l_id = ''a'', l_date = ''2025-01-01'', l_miles = 90\<rparr>] / max 1 1800 * 100) 0 100 = 5"
proof -
  have h: "(1800::rat) = 0 \<or> (1::rat) \<le> 1800" by simp
  note T = progressPct_denominator[of 1800 "[\<lparr>l_id = ''a'', l_date = ''2025-01-01'', l_miles = 90\<rparr>]"]
  have v: "progressPct 1800 [\<lparr>l_id = ''a'', l_date = ''2025-01-01'', l_miles = 90\<rparr>] = 5"
    by (simp add: progressPct_def logsTotal_def clamp_def)
  from T h have "progressPct 1800 [\<lparr>l_id = ''a'', l_date = ''2025-01-01'', l_miles = 90\<rparr>]
      = clamp (logsTotal [\<lparr>l_id = ''a'', l_date = ''2025-01-01'', l_miles = 90\<rparr>] / max 1 1800 * 100) 0 100"
    by blast
  with v h show ?thesis by simp
qed

text \<open>
  Claim C1 as stated fails for a goal strictly between 0 and 1: the denominator is then
  the goal, not 1. With goal 0.5 and a total of 0.25 the code gives 50, the stated formula 25.
\<close>

theorem progressPct_small_goal:
  "progressPct (1 / 2) [\<lparr>l_id = ''a'', l_date = ''2025-01-01'', l_miles = 1 / 4\<rparr>] = 50
   \<and> clamp (logsTotal [\<lparr>l_id = ''a'', l_date = ''2025-01-01'', l_miles = 1 / 4\<rparr>]
             / max 1 (1 / 2) * 100) 0 100 = 25
   \<and> progressPct (1 / 2) [\<lparr>l_id = ''a'', l_date = ''2025-01-01'', l_miles = 1 / 4\<rparr>]
       \<noteq> clamp (logsTotal [\<lparr>l_id = ''a'', l_date = ''2025-01-01'', l_miles = 1 / 4\<rparr>]
                 / max 1 (1 / 2) * 100) 0 100"
  by (simp add: progressPct_def logsTotal_def clamp_def)

section \<open>Properties of the odometer ledger\<close>

lemma addMiles_entries:
  "entries (addMiles v uuid now st) =
     (if isNaN v \<or> jle v (Fin 0) then entries st
      else entries st @ [\<lparr>e_id = uuid, e_miles = v, e_date = now, e_edited = False\<rparr>])"
  by (simp add: addMiles_def Let_def showRewardToast_def)

lemma addMilesAll_entries:
  "entries (addMilesAll ops st) =
     entries st @ map (\<lambda>(v, uuid, now). \<lparr>e_id = uuid, e_miles = v, e_date = now, e_edited = False\<rparr>)
                    (filter (\<lambda>(v, uuid, now). \<not> (isNaN v \<or> jle v (Fin 0))) ops)"
  by (induction ops arbitrary: st) (auto simp: addMiles_entries)

lemma lastEntry_snoc: "lastEntry (es @ [e]) = Some e"
  by (simp add: lastEntry_def js_index_def)

lemma lastEntry_eq: "lastEntry es = (if es = [] then None else Some (last es))"
  by (cases es rule: rev_cases) (simp_all add: lastEntry_def js_index_def)

lemma deleteLast_after_addMiles:
  "\<not> (isNaN v \<or> jle v (Fin 0)) \<Longrightarrow> entries (deleteLast (addMiles v uuid now st)) = entries st"
  by (simp add: deleteLast_def addMiles_entries lastEntry_snoc)


lemma saveEditLast_rejected:
  "entries st = [] \<or> isNaN v \<or> jle v (Fin 0) \<Longrightarrow> saveEditLast v st = st"
  by (auto simp: saveEditLast_def lastEntry_eq split: option.splits)

lemma saveEditLast_entries:
  assumes "entries st \<noteq> []" "\<not> isNaN v" "\<not> jle v (Fin 0)"
  shows "entries (saveEditLast v st) =
           butlast (entries st) @ [(last (entries st))\<lparr>e_miles := v, e_edited := True\<rparr>]"
proof -
  from assms(1) obtain ys y where es: "entries st = ys @ [y]"
    by (cases "entries st" rule: rev_cases) auto
  then have "entries (saveEditLast v st) = (ys @ [y])[length ys := y\<lparr>e_miles := v, e_edited := True\<rparr>]"
    using assms(2,3)
    by (simp add: saveEditLast_def lastEntry_snoc Let_def showRewardToast_def)
  with es show ?thesis by simp
qed

section \<open>Properties of the planner's log list\<close>

lemma insertByDate_mset: "mset (insertByDate x ys) = add_mset x (mset ys)"
  by (induction ys) auto

lemma insertByDate_set: "set (insertByDate x ys) = insert x (set ys)"
  by (induction ys) auto

lemma insertByDate_sorted:
  "sorted_wrt (\<lambda>a b. l_date b \<le> l_date a) ys \<Longrightarrow>
   sorted_wrt (\<lambda>a b. l_date b \<le> l_date a) (insertByDate x ys)"
  by (induction ys) (auto simp: insertByDate_set)

lemma insertByDate_stable:
  "sorted_wrt (\<lambda>a b. l_date b \<le> l_date a) ys \<Longrightarrow>
   filter (\<lambda>z. l_date z = d) (insertByDate x ys) =
     filter (\<lambda>z. l_date z = d) ys @ (if l_date x = d then [x] else [])"
proof (induction ys)
  case Nil
  then show ?case by simp
next
  case (Cons y ys)
  show ?case
  proof (cases "l_date y < l_date x")
    case True
    with Cons.prems have "\<forall>z\<in>set (y # ys). l_date z < l_date x" by auto
    then have "l_date x = d \<Longrightarrow> filter (\<lambda>z. l_date z = d) (y # ys) = []"
      by (auto simp: filter_empty_conv)
    with True show ?thesis by auto
  next
    case False
    with Cons show ?thesis by auto
  qed
qed

lemma foldl_insert_sorted:
  "sorted_wrt (\<lambda>a b. l_date b \<le> l_date a) acc \<Longrightarrow>
   sorted_wrt (\<lambda>a b. l_date b \<le> l_date a) (foldl (\<lambda>sorted x. insertByDate x sorted) acc ls)"
  by (induction ls arbitrary: acc) (simp_all add: insertByDate_sorted)

lemma foldl_insert_mset:
  "mset (foldl (\<lambda>sorted x. insertByDate x sorted) acc ls) = mset acc + mset ls"
  by (induction ls arbitrary: acc) (simp_all add: insertByDate_mset)

lemma foldl_insert_stable:
  "sorted_wrt (\<lambda>a b. l_date b \<le> l_date a) acc \<Longrightarrow>
   filter (\<lambda>z. l_date z = d) (foldl (\<lambda>sorted x. insertByDate x sorted) acc ls) =
     filter (\<lambda>z. l_date z = d) acc @ filter (\<lambda>z. l_date z = d) ls"
  by (induction ls arbitrary: acc) (simp_all add: insertByDate_sorted insertByDate_stable)

lemma sortByDateDesc_sorted: "sorted_wrt (\<lambda>a b. l_date b \<le> l_date a) (sortByDateDesc ls)"
  by (simp add: sortByDateDesc_def foldl_insert_sorted)

lemma sortByDateDesc_mset: "mset (sortByDateDesc ls) = mset ls"
  by (simp add: sortByDateDesc_def foldl_insert_mset)

lemma sortByDateDesc_stable:
  "filter (\<lambda>z. l_date z = d) (sortByDateDesc ls) = filter (\<lambda>z. l_date z = d) ls"
  by (simp add: sortByDateDesc_def foldl_insert_stable)

lemma addLog_logs:
  "0 < r \<Longrightarrow> logs (addLog (Fin r) uuid stamp st) =
     sortByDateDesc (logs st @ [\<lparr>l_id = (case uuid of Some u \<Rightarrow> u | None \<Rightarrow> stamp),
                                  l_date = entryDate st, l_miles = r\<rparr>])"
  by (simp add: addLog_def Let_def)

section \<open>The claims on the entry ledger\<close>

text \<open>
  Claim C2, as amended. In the odometer variant the ledger is kept in insertion order:
  after any sequence of presses of Add the stored entries are the earlier ones followed
  by one entry per accepted press, in the order of the presses; after an accepted press
  \<open>lastEntry\<close> is the entry just appended and \<open>deleteLast\<close> removes exactly that one. In the
  planner variant the stored list is itself re-sorted on every append: it is the stable
  sort by date, later dates first, of the earlier list followed by the new log (sorted,
  the same logs, logs of one date in their earlier order).
\<close>

theorem ledger_order:
  "entries (addMilesAll ops st) =
     entries st @ map (\<lambda>(v, uuid, now). \<lparr>e_id = uuid, e_miles = v, e_date = now, e_edited = False\<rparr>)
                    (filter (\<lambda>(v, uuid, now). \<not> (isNaN v \<or> jle v (Fin 0))) ops)
   \<and> (\<not> (isNaN v \<or> jle v (Fin 0)) \<longrightarrow>
         lastEntry (entries (addMiles v uuid now st))
           = Some \<lparr>e_id = uuid, e_miles = v, e_date = now, e_edited = False\<rparr>
         \<and> entries (deleteLast (addMiles v uuid now st)) = entries st)
   \<and> (0 < r \<longrightarrow>
         logs (addLog (Fin r) u stamp p) =
           sortByDateDesc (logs p @ [\<lparr>l_id = (case u of Some x \<Rightarrow> x | None \<Rightarrow> stamp),
                                      l_date = entryDate p, l_miles = r\<rparr>]))
   \<and> sorted_wrt (\<lambda>a b. l_date b \<le> l_date a) (sortByDateDesc ls)
   \<and> mset (sortByDateDesc ls) = mset ls
   \<and> (\<forall>d. filter (\<lambda>z. l_date z = d) (sortByDateDesc ls) = filter (\<lambda>z. l_date z = d) ls)"
  by (simp add: addMilesAll_entries addMiles_entries lastEntry_snoc deleteLast_after_addMiles
      addLog_logs sortByDateDesc_sorted sortByDateDesc_mset sortByDateDesc_stable)

theorem ledger_order_witness:
  "\<not> (isNaN (Fin 4) \<or> jle (Fin 4) (Fin 0)) \<and> (0::rat) < 3
   \<and> map e_id (entries (addMilesAll [(Fin 3, ''a'', ''t1''), (NaN, ''b'', ''t2''), (Fin 4, ''c'', ''t3'')]
                           freshTracker)) = [''a'', ''c'']
   \<and> lastEntry (entries (addMiles (Fin 4) ''c'' ''t3'' freshTracker))
        = Some \<lparr>e_id = ''c'', e_miles = Fin 4, e_date = ''t3'', e_edited = False\<rparr>
   \<and> entries (deleteLast (addMiles (Fin 4) ''c'' ''t3'' freshTracker)) = []
   \<and> logs (addLog (Fin 3) (Some ''a'') ''0'' (freshPlanner ''2025-01-01''))
        = sortByDateDesc [\<lparr>l_id = ''a'', l_date = ''2025-01-01'', l_miles = 3\<rparr>]"
proof -
  note T = ledger_order[of "[(Fin 3, ''a'', ''t1''), (NaN, ''b'', ''t2''), (Fin 4, ''c'', ''t3'')]"
      freshTracker "Fin 4" "''c''" "''t3''" 3 "Some ''a''" "''0''" "freshPlanner ''2025-01-01''" "[]"]
  have h1: "\<not> (isNaN (Fin 4) \<or> jle (Fin 4) (Fin 0))" by (simp add: isNaN_def)
  have h2: "(0::rat) < 3" by simp
  have a: "map e_id (entries (addMilesAll [(Fin 3, ''a'', ''t1''), (NaN, ''b'', ''t2''), (Fin 4, ''c'', ''t3'')]
                           freshTracker)) = [''a'', ''c'']"
    unfolding T[THEN conjunct1] by (simp add: isNaN_def freshTracker_def)
  note b = T[THEN conjunct2, THEN conjunct1, rule_format, OF h1]
  have c: "entries (deleteLast (addMiles (Fin 4) ''c'' ''t3'' freshTracker)) = []"
    unfolding b[THEN conjunct2] by (simp add: freshTracker_def)
  have d: "logs (addLog (Fin 3) (Some ''a'') ''0'' (freshPlanner ''2025-01-01''))
        = sortByDateDesc [\<lparr>l_id = ''a'', l_date = ''2025-01-01'', l_miles = 3\<rparr>]"
    unfolding T[THEN conjunct2, THEN conjunct2, THEN conjunct1, rule_format, OF h2]
    by (simp add: freshPlanner_def)
  from h1 h2 a b[THEN conjunct1] c d show ?thesis by (intro conjI)
qed

text \<open>
  Claim C2 as stated fails in the planner variant: the stored order is the date order.
  A log dated 2025-01-01 is appended, then one dated 2025-01-05; the stored list holds
  the second before the first.
\<close>

theorem planner_stores_date_order:
  "map l_id (logs (addLog (Fin 4) (Some ''b'') ''0''
             ((addLog (Fin 3) (Some ''a'') ''0'' (freshPlanner ''2025-01-01''))
                \<lparr>entryDate := ''2025-01-05''\<rparr>))) = [''b'', ''a'']"
  by (simp add: addLog_logs freshPlanner_def sortByDateDesc_def)

text \<open>
  Claim C6. \<open>saveEditLast\<close> leaves the whole state as it was when the ledger is empty or
  the new distance is not a number or is at most 0. Otherwise the ledger keeps its
  length and every entry but the last; the last entry keeps its id and date, its miles
  become the new distance and its edited flag is set. On the ledger of one entry of 10
  miles, saving 15 takes the total from 10 to 15, sets the flag and keeps the length 1.
\<close>

theorem saveEditLast_frame:
  "(entries st = [] \<or> isNaN v \<or> jle v (Fin 0) \<longrightarrow> saveEditLast v st = st)
   \<and> (entries st \<noteq> [] \<and> \<not> isNaN v \<and> \<not> jle v (Fin 0) \<longrightarrow>
         length (entries (saveEditLast v st)) = length (entries st)
       \<and> butlast (entries (saveEditLast v st)) = butlast (entries st)
       \<and> (\<forall>i. i < length (entries st) - 1 \<longrightarrow>
             entries (saveEditLast v st) ! i = entries st ! i)
       \<and> e_id (last (entries (saveEditLast v st))) = e_id (last (entries st))
       \<and> e_date (last (entries (saveEditLast v st))) = e_date (last (entries st))
       \<and> e_miles (last (entries (saveEditLast v st))) = v
       \<and> e_edited (last (entries (saveEditLast v st))) = True)
   \<and> totalMiles [\<lparr>e_id = i0, e_miles = Fin 10, e_date = d0, e_edited = False\<rparr>] = Fin 10
   \<and> entries (saveEditLast (Fin 15)
        (freshTracker\<lparr>entries := [\<lparr>e_id = i0, e_miles = Fin 10, e_date = d0, e_edited = False\<rparr>]\<rparr>))
       = [\<lparr>e_id = i0, e_miles = Fin 15, e_date = d0, e_edited = True\<rparr>]
   \<and> totalMiles (entries (saveEditLast (Fin 15)
        (freshTracker\<lparr>entries := [\<lparr>e_id = i0, e_miles = Fin 10, e_date = d0, e_edited = False\<rparr>]\<rparr>)))
       = Fin 15"
proof -
  have rej: "entries st = [] \<or> isNaN v \<or> jle v (Fin 0) \<longrightarrow> saveEditLast v st = st"
    using saveEditLast_rejected by blast
  have acc: "entries st \<noteq> [] \<and> \<not> isNaN v \<and> \<not> jle v (Fin 0) \<longrightarrow>
         length (entries (saveEditLast v st)) = length (entries st)
       \<and> butlast (entries (saveEditLast v st)) = butlast (entries st)
       \<and> (\<forall>i. i < length (entries st) - 1 \<longrightarrow>
             entries (saveEditLast v st) ! i = entries st ! i)
       \<and> e_id (last (entries (saveEditLast v st))) = e_id (last (entries st))
       \<and> e_date (last (entries (saveEditLast v st))) = e_date (last (entries st))
       \<and> e_miles (last (entries (saveEditLast v st))) = v
       \<and> e_edited (last (entries (saveEditLast v st))) = True"
  proof (intro impI)
    assume a: "entries st \<noteq> [] \<and> \<not> isNaN v \<and> \<not> jle v (Fin 0)"
    then have e: "entries (saveEditLast v st) =
           butlast (entries st) @ [(last (entries st))\<lparr>e_miles := v, e_edited := True\<rparr>]"
      by (simp add: saveEditLast_entries)
    from a show "length (entries (saveEditLast v st)) = length (entries st)
       \<and> butlast (entries (saveEditLast v st)) = butlast (entries st)
       \<and> (\<forall>i. i < length (entries st) - 1 \<longrightarrow>
             entries (saveEditLast v st) ! i = entries st ! i)
       \<and> e_id (last (entries (saveEditLast v st))) = e_id (last (entries st))
       \<and> e_date (last (entries (saveEditLast v st))) = e_date (last (entries st))
       \<and> e_miles (last (entries (saveEditLast v st))) = v
       \<and> e_edited (last (entries (saveEditLast v st))) = True"
      unfolding e by (simp add: nth_append nth_butlast)
  qed
  have one: "entries (saveEditLast (Fin 15)
        (freshTracker\<lparr>entries := [\<lparr>e_id = i0, e_miles = Fin 10, e_date = d0, e_edited = False\<rparr>]\<rparr>))
       = [\<lparr>e_id = i0, e_miles = Fin 15, e_date = d0, e_edited = True\<rparr>]"
    by (simp add: saveEditLast_entries isNaN_def)
  have t10: "totalMiles [\<lparr>e_id = i0, e_miles = Fin 10, e_date = d0, e_edited = False\<rparr>] = Fin 10"
    by (simp add: totalMiles_def)
  have t15: "totalMiles (entries (saveEditLast (Fin 15)
        (freshTracker\<lparr>entries := [\<lparr>e_id = i0, e_miles = Fin 10, e_date = d0, e_edited = False\<rparr>]\<rparr>)))
       = Fin 15"
    unfolding one by (simp add: totalMiles_def)
  from rej acc t10 one t15 show ?thesis by (intro conjI)
qed

theorem saveEditLast_frame_witness:
  "entries (saveEditLast (Fin 0) freshTracker) = []
   \<and> saveEditLast NaN
        (freshTracker\<lparr>entries := [\<lparr>e_id = ''a'', e_miles = Fin 10, e_date = ''t'', e_edited = False\<rparr>]\<rparr>)
       = freshTracker\<lparr>entries := [\<lparr>e_id = ''a'', e_miles = Fin 10, e_date = ''t'', e_edited = False\<rparr>]\<rparr>
   \<and> entries (saveEditLast (Fin 15)
        (freshTracker\<lparr>entries := [\<lparr>e_id = ''a'', e_miles = Fin 10, e_date = ''t'', e_edited = False\<rparr>]\<rparr>))
       = [\<lparr>e_id = ''a'', e_miles = Fin 15, e_date = ''t'', e_edited = True\<rparr>]
   \<and> length (entries (saveEditLast (Fin 15)
        (freshTracker\<lparr>entries := [\<lparr>e_id = ''a'', e_miles = Fin 10, e_date = ''t'', e_edited = False\<rparr>]\<rparr>)))
       = 1"
proof -
  let ?st = "freshTracker\<lparr>entries := [\<lparr>e_id = ''a'', e_miles = Fin 10, e_date = ''t'', e_edited = False\<rparr>]\<rparr>"
  have h0: "entries freshTracker = [] \<or> isNaN (Fin 0) \<or> jle (Fin 0) (Fin 0)"
    by (simp add: freshTracker_def)
  have a: "entries (saveEditLast (Fin 0) freshTracker) = []"
    using saveEditLast_frame[of freshTracker "Fin 0", THEN conjunct1, rule_format, OF h0]
    by (simp add: freshTracker_def)
  have h1: "entries ?st = [] \<or> isNaN NaN \<or> jle NaN (Fin 0)"
    by (simp add: isNaN_def)
  note b = saveEditLast_frame[of ?st NaN, THEN conjunct1, rule_format, OF h1]
  note T = saveEditLast_frame[of ?st "Fin 15" "''a''" "''t''"]
  note c = T[THEN conjunct2, THEN conjunct2, THEN conjunct2, THEN conjunct1]
  have d: "length (entries (saveEditLast (Fin 15) ?st)) = 1"
    unfolding c by simp
  from a b c d show ?thesis by (intro conjI)
qed

section \<open>The claim on validation at the append handlers\<close>

















text \<open>
  Where the host has no \<open>crypto.randomUUID\<close>, the id that \<open>addLog\<close> gives is the text of
  the clock's milliseconds, which two appends within one millisecond share.
\<close>

lemma addLog_clock_id_repeats:
  "map l_id (logs (addLog (Fin 2) None ''1700000000000''
                     (addLog (Fin 3) None ''1700000000000'' (freshPlanner ''2025-01-01''))))
     = [''1700000000000'', ''1700000000000'']"
  by (simp add: addLog_def logsTotal_def newly_def DEFAULT_MILESTONES_def nextMilestone_def
      sortByDateDesc_def freshPlanner_def)

section \<open>Crossed milestones and notifications\<close>

lemma newly_set: "set (newly table a b) = {m \<in> set table. a < m_miles m \<and> m_miles m \<le> b}"
  by (auto simp: newly_def)

lemma newly_sorted:
  "sorted_wrt (\<lambda>x y. m_miles x < m_miles y) table \<Longrightarrow>
   sorted_wrt (\<lambda>x y. m_miles x < m_miles y) (newly table a b)"
  by (simp add: newly_def sorted_wrt_filter)

lemma newly_last_highest:
  assumes "sorted_wrt (\<lambda>x y. m_miles x < m_miles y) table" "x \<in> set (newly table a b)"
  shows "m_miles x \<le> m_miles (last (newly table a b))"
  using sorted_wrt_last[OF newly_sorted[OF assms(1)] assms(2)] by auto

lemma floor_rat_numeral: "\<lfloor>numeral a / numeral b :: rat\<rfloor> = numeral a div numeral b"
  using floor_divide_of_int_eq[of "numeral a" "numeral b", where ?'a = rat] by simp

lemma ceiling_rat_numeral: "\<lceil>numeral a / numeral b :: rat\<rceil> = - (- numeral a div numeral b)"
  using ceiling_divide_eq_div[of "numeral a" "numeral b", where ?'a = rat] by simp

lemmas dbl_eval = dbl_def flog2_def compute_bitlen pow2_def roundHalfEven_def Let_def
  floor_rat_numeral ceiling_rat_numeral

lemma logsTotalIn_exact: "logsTotalIn (\<lambda>x. x) ls = logsTotal ls"
  by (simp add: logsTotalIn_def logsTotal_def)

lemma addLogIn_exact: "addLogIn (\<lambda>x. x) m uuid stamp st = addLog m uuid stamp st"
  unfolding addLogIn_def addLog_def logsTotalIn_exact by (rule refl)

text \<open>Known doubles: 0.1, and 0.1 + 0.2, which is 0.30000000000000004.\<close>

lemma dbl_examples:
  "dbl (1 / 10) = 3602879701896397 / 36028797018963968"
  "dbl (2 / 10) = 3602879701896397 / 18014398509481984"
  "dbl (dbl (1 / 10) + dbl (2 / 10)) = 1351079888211149 / 4503599627370496"
  "dbl 120 = 120"
  by (simp_all add: dbl_eval)

lemma typed_doubles:
  "dbl (266 / 10) = 3743617190251725 / 140737488355328"
  "dbl (696 / 10) = 2448832297382707 / 35184372088832"
  "dbl (238 / 10) = 6699104445713613 / 281474976710656"
  by (simp_all add: dbl_eval)

text \<open>
  Claim C4 fails on the code where the rounding of the sums decides. The planner holds
  the logs 26.6 (2025-01-02) and 69.6 (2025-01-01); their total in doubles is
  96.19999999999999, below Bree's 120. The user logs 23.8 for 2025-01-03. The handler adds
  23.8 to the total it has and gets 119.99999999999999: no milestone is crossed for it and
  the notice is the distance to the next milestone, not \<open>Unlocked\<close>. The list is
  re-sorted with the new log first, and its total, summed in that order, is exactly 120:
  the current milestone is Bree. A milestone was crossed and no notification named it.
\<close>

theorem addLog_misses_crossing:
  "logsTotalIn dbl
     [\<lparr>l_id = ''a'', l_date = ''2025-01-02'', l_miles = dbl (266 / 10)\<rparr>,
      \<lparr>l_id = ''b'', l_date = ''2025-01-01'', l_miles = dbl (696 / 10)\<rparr>]
     = 1692368297472819 / 17592186044416
   \<and> lastReached DEFAULT_MILESTONES (1692368297472819 / 17592186044416)
       = Some (DEFAULT_MILESTONES ! 0)
   \<and> notice (addLogIn dbl (Fin (dbl (238 / 10))) (Some ''c'') ''0''
        ((freshPlanner ''2025-01-03'')
           \<lparr>logs := [\<lparr>l_id = ''a'', l_date = ''2025-01-02'', l_miles = dbl (266 / 10)\<rparr>,
                     \<lparr>l_id = ''b'', l_date = ''2025-01-01'', l_miles = dbl (696 / 10)\<rparr>]\<rparr>))
       = LoggedToNext (1 / 70368744177664)
   \<and> map l_id (logs (addLogIn dbl (Fin (dbl (238 / 10))) (Some ''c'') ''0''
        ((freshPlanner ''2025-01-03'')
           \<lparr>logs := [\<lparr>l_id = ''a'', l_date = ''2025-01-02'', l_miles = dbl (266 / 10)\<rparr>,
                     \<lparr>l_id = ''b'', l_date = ''2025-01-01'', l_miles = dbl (696 / 10)\<rparr>]\<rparr>)))
       = [''c'', ''a'', ''b'']
   \<and> logsTotalIn dbl (logs (addLogIn dbl (Fin (dbl (238 / 10))) (Some ''c'') ''0''
        ((freshPlanner ''2025-01-03'')
           \<lparr>logs := [\<lparr>l_id = ''a'', l_date = ''2025-01-02'', l_miles = dbl (266 / 10)\<rparr>,
                     \<lparr>l_id = ''b'', l_date = ''2025-01-01'', l_miles = dbl (696 / 10)\<rparr>]\<rparr>)))
       = 120
   \<and> lastReached DEFAULT_MILESTONES 120 = Some (DEFAULT_MILESTONES ! 1)"
proof -
  define d1 d2 d3 t0 t1 s1 :: rat
    where "d1 = 3743617190251725 / 140737488355328"
      and "d2 = 2448832297382707 / 35184372088832"
      and "d3 = 6699104445713613 / 281474976710656"
      and "t0 = 1692368297472819 / 17592186044416"
      and "t1 = 8444249301319679 / 70368744177664"
      and "s1 = 1773292353277133 / 35184372088832"
  note defs = d1_def d2_def d3_def t0_def t1_def s1_def
  let ?a = "\<lparr>l_id = ''a'', l_date = ''2025-01-02'', l_miles = d1\<rparr>"
  let ?b = "\<lparr>l_id = ''b'', l_date = ''2025-01-01'', l_miles = d2\<rparr>"
  let ?c = "\<lparr>l_id = ''c'', l_date = ''2025-01-03'', l_miles = d3\<rparr>"
  let ?p = "(freshPlanner ''2025-01-03'')\<lparr>logs := [?a, ?b]\<rparr>"
  have typed: "dbl (266 / 10) = d1" "dbl (696 / 10) = d2" "dbl (238 / 10) = d3"
    unfolding defs by (simp_all add: dbl_eval)
  have same: "dbl d1 = d1" "dbl d3 = d3"
    unfolding defs by (simp_all add: dbl_eval)
  have sums: "dbl (d1 + d2) = t0" "dbl (t0 + d3) = t1" "dbl (d3 + d1) = s1" "dbl (s1 + d2) = 120"
    "dbl (120 - t1) = 1 / 70368744177664"
    unfolding defs by (simp_all add: dbl_eval)
  have pos: "\<not> d3 \<le> 0" unfolding defs by simp
  have before: "logsTotalIn dbl [?a, ?b] = t0"
    by (simp add: logsTotalIn_def same sums)
  have shire: "lastReached DEFAULT_MILESTONES t0 = Some (DEFAULT_MILESTONES ! 0)"
    unfolding defs
    by (simp add: lastReached_def reachedMilestones_def js_at_last_def DEFAULT_MILESTONES_def)
  have none: "newly DEFAULT_MILESTONES t0 t1 = []"
    unfolding defs by (simp add: newly_def DEFAULT_MILESTONES_def)
  have nxt: "nextMilestone DEFAULT_MILESTONES t0 = Some (DEFAULT_MILESTONES ! 1)"
    unfolding defs by (simp add: nextMilestone_def DEFAULT_MILESTONES_def)
  have bree120: "m_miles (DEFAULT_MILESTONES ! Suc 0) = 120"
    by (simp add: DEFAULT_MILESTONES_def)
  have sorted: "sortByDateDesc [?a, ?b, ?c] = [?c, ?a, ?b]"
    by (simp add: sortByDateDesc_def)
  have step: "addLogIn dbl (Fin d3) (Some ''c'') ''0'' ?p
      = ?p\<lparr>logs := [?c, ?a, ?b], entryMiles := [],
            notice := LoggedToNext (1 / 70368744177664)\<rparr>"
    by (simp add: addLogIn_def Let_def pos before sums none nxt bree120 sorted freshPlanner_def)
  have after: "logsTotalIn dbl [?c, ?a, ?b] = 120"
    by (simp add: logsTotalIn_def same sums)
  have bree: "lastReached DEFAULT_MILESTONES 120 = Some (DEFAULT_MILESTONES ! 1)"
    by (simp add: lastReached_def reachedMilestones_def js_at_last_def DEFAULT_MILESTONES_def)
  have c3: "notice (addLogIn dbl (Fin d3) (Some ''c'') ''0'' ?p) = LoggedToNext (1 / 70368744177664)"
    unfolding step by simp
  have c4: "map l_id (logs (addLogIn dbl (Fin d3) (Some ''c'') ''0'' ?p)) = [''c'', ''a'', ''b'']"
    unfolding step by simp
  have c5: "logsTotalIn dbl (logs (addLogIn dbl (Fin d3) (Some ''c'') ''0'' ?p)) = 120"
    unfolding step using after by simp
  show ?thesis
    unfolding typed
    using before shire[unfolded t0_def] c3 c4 c5 bree
    unfolding t0_def by (intro conjI)
qed

section \<open>Properties of persistence\<close>

lemma initialState_roundtrip:
  "initialState today (GoodText (persisted st)) = stateValues st"
  by (simp add: initialState_def persisted_def stateValues_def Let_def)

lemma initialState_NoItem: "initialState today NoItem = defaults today"
  by (simp add: initialState_def Let_def)

lemma initialState_BadText: "initialState today BadText = defaults today"
  by (simp add: initialState_def Let_def)

lemma logJson_inj: "logJson a = logJson b \<Longrightarrow> a = b"
  by (cases a, cases b) (simp add: logJson_def)

lemma stageJson_inj: "stageJson a = stageJson b \<Longrightarrow> a = b"
  by (cases a, cases b) (simp add: stageJson_def)

lemma map_inj_eq: "(\<And>a b. f a = f b \<Longrightarrow> a = b) \<Longrightarrow> map f xs = map f ys \<Longrightarrow> xs = ys"
  by (metis injI inj_map_eq_map)

lemma stateValues_inj:
  assumes "stateValues s = stateValues s'"
  shows "goalMiles s = goalMiles s' \<and> goalDate s = goalDate s' \<and> logs s = logs s'
       \<and> planEnabled s = planEnabled s' \<and> planStartDate s = planStartDate s'
       \<and> capMiles s = capMiles s' \<and> daysPerWeek s = daysPerWeek s'
       \<and> rampStages s = rampStages s'"
proof -
  from assms have "map logJson (logs s) = map logJson (logs s')"
    and "map stageJson (rampStages s) = map stageJson (rampStages s')"
    and rest: "goalMiles s = goalMiles s'" "goalDate s = goalDate s'"
      "planEnabled s = planEnabled s'" "planStartDate s = planStartDate s'"
      "capMiles s = capMiles s'" "daysPerWeek s = daysPerWeek s'"
    by (simp_all add: stateValues_def)
  then have "logs s = logs s'" "rampStages s = rampStages s'"
    using map_inj_eq[of logJson] map_inj_eq[of stageJson] logJson_inj stageJson_inj by blast+
  with rest show ?thesis by simp
qed

lemma loadEntries_roundtrip: "loadEntries (GoodText (persistedEntries es)) = map entryJson es"
  by (simp add: persistedEntries_def)

lemma entryJson_inj:
  "Number_isFinite (e_miles a) \<Longrightarrow> Number_isFinite (e_miles b) \<Longrightarrow> entryJson a = entryJson b \<Longrightarrow> a = b"
  by (cases a, cases b, cases "e_miles a"; cases "e_miles b") (auto simp: entryJson_def)

lemma entries_inj:
  "list_all (\<lambda>e. Number_isFinite (e_miles e)) xs \<Longrightarrow> list_all (\<lambda>e. Number_isFinite (e_miles e)) ys \<Longrightarrow>
   map entryJson xs = map entryJson ys \<Longrightarrow> xs = ys"
proof (induction xs arbitrary: ys)
  case Nil
  then show ?case by simp
next
  case (Cons x xs)
  then obtain y ys' where ys: "ys = y # ys'" by (cases ys) auto
  with Cons.prems have "entryJson x = entryJson y" "map entryJson xs = map entryJson ys'"
    "Number_isFinite (e_miles x)" "Number_isFinite (e_miles y)"
    "list_all (\<lambda>e. Number_isFinite (e_miles e)) xs" "list_all (\<lambda>e. Number_isFinite (e_miles e)) ys'"
    by simp_all
  with Cons.IH[of ys'] entryJson_inj[of x y] ys show ?case by simp
qed


lemma initialState_by_key:
  "initialState today (GoodText (JObj kvs)) =
     \<lparr>ld_goalMiles = nullish (map_of kvs ''goalMiles'') (JNum 1800),
      ld_goalDate = nullish (map_of kvs ''goalDate'') (JStr ''2027-10-12''),
      ld_logs = nullish (map_of kvs ''logs'') (JArr []),
      ld_planEnabled = nullish (map_of kvs ''planEnabled'') (JBool True),
      ld_planStartDate = nullish (map_of kvs ''planStartDate'') (JStr today),
      ld_capMiles = nullish (map_of kvs ''capMiles'') (JNum 5),
      ld_daysPerWeek = nullish (map_of kvs ''daysPerWeek'') (JNum 7),
      ld_rampStages = nullish (map_of kvs ''rampStages'') (JArr (map stageJson DEFAULT_RAMP_STAGES))\<rparr>"
  by (simp add: initialState_def defaults_def Let_def)

text \<open>
  Claim C9 fails on the code for saved data that parses but has another shape than the
  one the code writes. With the item \<open>{"logs":5}\<close> under the storage key, \<open>safeParse\<close>
  returns the object, \<open>saved?.logs ?? []\<close> is 5, the state \<open>logs\<close> starts as 5 and not as the
  default, and the first render raises a \<open>TypeError\<close> at \<open>logs.reduce\<close>; with the default
  (the empty array) it does not. The load effect of the odometer variant tests
  \<open>Array.isArray\<close> and keeps its default on the like item.
\<close>

theorem saved_logs_not_an_array:
  "safeParse (GoodText (JObj [(''logs'', JNum 5)])) JNull = JObj [(''logs'', JNum 5)]
   \<and> initialState ''2025-01-01'' (GoodText (JObj [(''logs'', JNum 5)]))
       = (defaults ''2025-01-01'')\<lparr>ld_logs := JNum 5\<rparr>
   \<and> logs_reduce (ld_logs (initialState ''2025-01-01'' (GoodText (JObj [(''logs'', JNum 5)]))))
       = Inl TypeError
   \<and> logs_reduce (ld_logs (defaults ''2025-01-01'')) = Inr []
   \<and> loadEntries (GoodText (JObj [(''entries'', JNum 5)])) = []"
  by (simp add: initialState_def defaults_def)

end
